theory Spec2Isabelle
  imports Main "HOL-Library.Char_ord" "HOL-Library.List_Lexorder" "HOL-Library.AList"
begin

section \<open>Python values\<close>

text \<open>
  The client of \<^verbatim>\<open>bitrix24.py\<close> works on the values that the JSON decoder
  produces and that callers pass in: \<^verbatim>\<open>None\<close>, booleans, integers, strings,
  lists and dictionaries with string keys. A dictionary is an association list in
  insertion order (the order Python iterates it in); a well-formed dictionary has
  distinct keys. Floating point numbers are left out: no operation of the client
  looks inside a number.
\<close>

datatype pyval =
    PNone
  | PBool bool
  | PInt int
  | PStr string
  | PList "pyval list"
  | PDict "(string \<times> pyval) list"

type_synonym dict = "(string \<times> pyval) list"

text \<open>
  The faults that cross a function boundary. \<^verbatim>\<open>raise Exception(msg)\<close> of the
  source is \<open>Exception msg\<close>; the others are the built-in faults that the
  Python operations used by the source raise, and the two transport faults of
  \<^verbatim>\<open>requests\<close>.
\<close>

datatype error =
    Exception string
  | KeyError
  | TypeError
  | IndexError
  | AttributeError
  | ReadTimeout
  | ConnectionError

fun is_str :: "pyval \<Rightarrow> bool" where
  "is_str (PStr s) = True"
| "is_str v = False"



text \<open>Truthiness, as \<^verbatim>\<open>if v:\<close> tests it.\<close>

fun py_truthy :: "pyval \<Rightarrow> bool" where
  "py_truthy PNone = False"
| "py_truthy (PBool b) = b"
| "py_truthy (PInt n) = (n \<noteq> 0)"
| "py_truthy (PStr s) = (s \<noteq> [])"
| "py_truthy (PList l) = (l \<noteq> [])"
| "py_truthy (PDict d) = (d \<noteq> [])"

text \<open>\<^verbatim>\<open>len(v)\<close>: defined on strings, lists and dictionaries, a TypeError elsewhere.\<close>

fun py_len :: "pyval \<Rightarrow> error + nat" where
  "py_len (PStr s) = Inr (length s)"
| "py_len (PList l) = Inr (length l)"
| "py_len (PDict d) = Inr (length d)"
| "py_len v = Inl TypeError"

text \<open>
  \<^verbatim>\<open>for i in v\<close>: the keys of a dictionary, the elements of a list, the
  one-character strings of a string; a TypeError elsewhere.
\<close>

fun py_iter :: "pyval \<Rightarrow> error + pyval list" where
  "py_iter (PDict d) = Inr (map (\<lambda>kv. PStr (fst kv)) d)"
| "py_iter (PList l) = Inr l"
| "py_iter (PStr s) = Inr (map (\<lambda>c. PStr [c]) s)"
| "py_iter v = Inl TypeError"

text \<open>\<^verbatim>\<open>xs[i]\<close> on a list: \<^verbatim>\<open>xs[-1]\<close> is the last element; an IndexError outside the list.\<close>

definition list_index :: "pyval list \<Rightarrow> int \<Rightarrow> error + pyval" where
  "list_index xs i =
     (if 0 \<le> i
      then (if nat i < length xs then Inr (xs ! nat i) else Inl IndexError)
      else (if nat (- i) \<le> length xs then Inr (xs ! (length xs - nat (- i)))
            else Inl IndexError))"

text \<open>
  \<^verbatim>\<open>v[k]\<close>. A dictionary has string keys only, so any other hashable key is
  missing (KeyError) and a list or dictionary as key is unhashable (TypeError). A list
  takes integers (a boolean counts as 0 or 1). A string indexed by a string, and
  every other value, raises TypeError.
\<close>

fun py_getitem :: "pyval \<Rightarrow> pyval \<Rightarrow> error + pyval" where
  "py_getitem (PDict d) (PStr k) =
     (case map_of d k of None \<Rightarrow> Inl KeyError | Some v \<Rightarrow> Inr v)"
| "py_getitem (PDict d) (PList l) = Inl TypeError"
| "py_getitem (PDict d) (PDict e) = Inl TypeError"
| "py_getitem (PDict d) k = Inl KeyError"
| "py_getitem (PList l) (PInt i) = list_index l i"
| "py_getitem (PList l) (PBool b) = list_index l (if b then 1 else 0)"
| "py_getitem v k = Inl TypeError"

text \<open>Substring test, for \<^verbatim>\<open>'error' in some_string\<close>.\<close>

fun starts_with :: "string \<Rightarrow> string \<Rightarrow> bool" where
  "starts_with [] s = True"
| "starts_with (p # ps) [] = False"
| "starts_with (p # ps) (c # cs) = (p = c \<and> starts_with ps cs)"

fun has_substring :: "string \<Rightarrow> string \<Rightarrow> bool" where
  "has_substring p [] = (p = [])"
| "has_substring p (c # cs) = (starts_with p (c # cs) \<or> has_substring p cs)"

text \<open>
  \<^verbatim>\<open>k in v\<close> for a string \<open>k\<close>: key membership in a dictionary, element
  membership in a list, substring in a string, a TypeError elsewhere.
\<close>

fun py_in :: "string \<Rightarrow> pyval \<Rightarrow> error + bool" where
  "py_in k (PDict d) = Inr (k \<in> set (map fst d))"
| "py_in k (PList l) = Inr (PStr k \<in> set l)"
| "py_in k (PStr s) = Inr (has_substring k s)"
| "py_in k v = Inl TypeError"

text \<open>\<^verbatim>\<open>'%d' % n\<close> for an integer.\<close>

definition digit_char :: "nat \<Rightarrow> char" where
  "digit_char d = ''0123456789'' ! d"

fun dec_nat :: "nat \<Rightarrow> string" where
  "dec_nat n = (if n < 10 then [digit_char n] else dec_nat (n div 10) @ [digit_char (n mod 10)])"

definition dec_int :: "int \<Rightarrow> string" where
  "dec_int i = (if i < 0 then CHR ''-'' # dec_nat (nat (- i)) else dec_nat (nat i))"

section \<open>The client, its collaborators and the transport\<close>

text \<open>
  The fields of a \<^verbatim>\<open>Bitrix24\<close> object. The two tokens are overwritten by
  \<^verbatim>\<open>refresh_tokens\<close> with whatever the decoded OAuth response holds, so they are
  Python values; the other fields are typed as the constructor documents them.
  Two more fields record what the object did to the outside: \<open>sent\<close> is the list
  of HTTP requests handed to the transport, oldest first (a spy on
  \<^verbatim>\<open>requests.post\<close>), and \<open>slept\<close> the seconds spent in \<^verbatim>\<open>sleep\<close>.
\<close>

record request =
  req_url :: string
  req_data :: string
  req_params :: dict
  req_timeout :: "nat option"

record client =
  domain :: string
  auth_token :: pyval
  refresh_token :: pyval
  client_id :: string
  client_secret :: string
  webhook_key :: string
  webhook_user :: int
  sent :: "request list"
  slept :: nat

text \<open>
  What \<^verbatim>\<open>requests.post\<close> does with a request: it returns a response with a body
  text, or raises \<^verbatim>\<open>ReadTimeout\<close> or \<^verbatim>\<open>ConnectionError\<close>.
\<close>

datatype http_outcome = Response string | TimedOut | Unreachable

text \<open>
  The collaborators that are not part of the repository are parameters of the model:
  \<^item> \<open>loads\<close> is \<^verbatim>\<open>json.loads\<close>; \<open>None\<close> stands for its \<^verbatim>\<open>ValueError\<close>;
  \<^item> \<open>urlencode\<close> is \<^verbatim>\<open>multidimensional_urlencode.urlencode\<close>, which may raise;
  \<^item> \<open>post\<close> is the remote side: the outcome of a request, given the requests
    sent before it.
\<close>

record env =
  loads :: "string \<Rightarrow> pyval option"
  urlencode :: "pyval \<Rightarrow> error + string"
  post :: "request list \<Rightarrow> request \<Rightarrow> http_outcome"

definition oauth_url :: string where
  "oauth_url = ''https://oauth.bitrix.info/oauth/token/''"

definition timeout :: nat where
  "timeout = 60"

definition DEFAULT_RETRIES :: nat where
  "DEFAULT_RETRIES = 10"

type_synonym 'a outcome = "(error + 'a) \<times> client"

section \<open>get_url\<close>

text \<open>
  \<^verbatim>\<open>api_url = 'https://%s/rest/%s.json'\<close> and
  \<^verbatim>\<open>webhook_url = 'https://%s.bitrix24.ru/rest/%d/%s/%s'\<close>, filled in.
\<close>

definition get_url :: "client \<Rightarrow> string \<Rightarrow> string" where
  "get_url c method =
     (if webhook_key c \<noteq> []
      then ''https://'' @ domain c @ ''.bitrix24.ru/rest/'' @ dec_int (webhook_user c)
             @ ''/'' @ webhook_key c @ ''/'' @ method
      else ''https://'' @ domain c @ ''/rest/'' @ method @ ''.json'')"

section \<open>merge_two_dicts\<close>

text \<open>
  \<^verbatim>\<open>z = x.copy(); z.update(y); return z\<close>. \<open>dict_update\<close> is
  \<^verbatim>\<open>z.update(y)\<close>: the entries of \<open>y\<close> are stored one by one, in order; a key that
  \<open>z\<close> has keeps its place and takes the new value, a new key goes to the end.
  The second argument is a dictionary wherever the client calls the function.
  The first comes from a decoded response: a list has \<^verbatim>\<open>copy\<close> but no
  \<^verbatim>\<open>update\<close>, the other values have no \<^verbatim>\<open>copy\<close>; both are an AttributeError.
\<close>

definition dict_update :: "dict \<Rightarrow> dict \<Rightarrow> dict" where
  "dict_update z y = fold (\<lambda>kv acc. AList.update (fst kv) (snd kv) acc) y z"

fun merge_two_dicts :: "pyval \<Rightarrow> dict \<Rightarrow> error + dict" where
  "merge_two_dicts (PDict x) y = Inr (dict_update x y)"
| "merge_two_dicts x y = Inl AttributeError"

section \<open>encode_cmd and prepare_batch\<close>

text \<open>
  \<^verbatim>\<open>for i in sorted(cmd.keys()): cmd_encoded += urlencode({'cmd': {i: cmd[i]}}) + '&'\<close>.
  Strings are ordered as Python orders them: lexicographically by character code.
\<close>

fun encode_ids :: "env \<Rightarrow> dict \<Rightarrow> string list \<Rightarrow> string \<Rightarrow> error + string" where
  "encode_ids E cmd [] cmd_encoded = Inr cmd_encoded"
| "encode_ids E cmd (i # ids) cmd_encoded =
     (case map_of cmd i of
        None \<Rightarrow> Inl KeyError
      | Some v \<Rightarrow>
          (case urlencode E (PDict [(''cmd'', PDict [(i, v)])]) of
             Inl e \<Rightarrow> Inl e
           | Inr s \<Rightarrow> encode_ids E cmd ids (cmd_encoded @ s @ ''&'')))"

fun encode_cmd :: "env \<Rightarrow> pyval \<Rightarrow> error + string" where
  "encode_cmd E (PDict cmd) = encode_ids E cmd (sort (map fst cmd)) []"
| "encode_cmd E v = Inl AttributeError"

text \<open>
  The inner loop of \<^verbatim>\<open>prepare_batch\<close>:
  \<^verbatim>\<open>for i in params[call_id]: temp += urlencode(i) + '&'\<close>.
\<close>

fun encode_rest :: "env \<Rightarrow> pyval list \<Rightarrow> string \<Rightarrow> error + string" where
  "encode_rest E [] temp = Inr temp"
| "encode_rest E (i # rest) temp =
     (case urlencode E i of
        Inl e \<Rightarrow> Inl e
      | Inr s \<Rightarrow> encode_rest E rest (temp @ s @ ''&''))"

text \<open>
  \<^verbatim>\<open>prepare_batch\<close> changes its argument: \<^verbatim>\<open>params[call_id].pop(0)\<close> removes
  the method name from the list that the caller's map holds. The model returns, next
  to the result or the fault, the caller's map as the call leaves it. Distinct
  request-ids hold distinct list objects, as in a map written as a literal or decoded
  from text.

  One round of the loop, in the source's order: the value must be a list; the first
  element is popped (IndexError on an empty list); \<^verbatim>\<open>'batch'\<close> as method is
  refused; the remaining elements are encoded; \<^verbatim>\<open>method + '?' + temp\<close> is a
  TypeError when the method is not a string.
\<close>

fun prepare_ids :: "env \<Rightarrow> string list \<Rightarrow> dict \<Rightarrow> dict \<Rightarrow> (error + dict) \<times> dict" where
  "prepare_ids E [] params batched_params = (Inr batched_params, params)"
| "prepare_ids E (call_id # ids) params batched_params =
     (case map_of params call_id of
        None \<Rightarrow> (Inl KeyError, params)
      | Some (PList []) \<Rightarrow> (Inl IndexError, params)
      | Some (PList (method # rest)) \<Rightarrow>
          (let params' = AList.update call_id (PList rest) params in
           if method = PStr ''batch''
           then (Inl (Exception ''Batch call cannot contain batch methods''), params')
           else
             (case encode_rest E rest [] of
                Inl e \<Rightarrow> (Inl e, params')
              | Inr temp \<Rightarrow>
                  (case method of
                     PStr m \<Rightarrow>
                       prepare_ids E ids params'
                         (AList.update call_id (PStr (m @ ''?'' @ temp)) batched_params)
                   | _ \<Rightarrow> (Inl TypeError, params'))))
      | Some _ \<Rightarrow> (Inl (Exception ''Invalid 'cmd' method description''), params))"

fun prepare_batch :: "env \<Rightarrow> pyval \<Rightarrow> (error + dict) \<times> pyval" where
  "prepare_batch E (PDict params) =
     (case prepare_ids E (sort (map fst params)) params [] of
        (r, params') \<Rightarrow> (r, PDict params'))"
| "prepare_batch E v = (Inl (Exception ''Invalid 'cmd' structure''), v)"

section \<open>call\<close>

text \<open>
  The positional parameters \<^verbatim>\<open>params1\<close> to \<^verbatim>\<open>params4\<close> are optional
  mappings: \<open>None\<close> is Python's \<^verbatim>\<open>None\<close>.

  Lines 55 to 57: a batch that is not marked as prepared has its \<^verbatim>\<open>cmd\<close>
  replaced by the prepared one and receives the marker. The function returns the
  first bundle as these lines leave it (the same object in Python, changed in place).
  \<^verbatim>\<open>'prepared' not in None\<close> is a TypeError, a missing \<^verbatim>\<open>cmd\<close> a KeyError.
\<close>

definition prepare_params1 :: "env \<Rightarrow> string \<Rightarrow> dict option \<Rightarrow> error + dict option" where
  "prepare_params1 E method params1 =
     (if method = ''batch''
      then (case params1 of
              None \<Rightarrow> Inl TypeError
            | Some p \<Rightarrow>
                if ''prepared'' \<notin> set (map fst p)
                then (case map_of p ''cmd'' of
                        None \<Rightarrow> Inl KeyError
                      | Some cmd \<Rightarrow>
                          (case fst (prepare_batch E cmd) of
                             Inl e \<Rightarrow> Inl e
                           | Inr batched \<Rightarrow>
                               Inr (Some (AList.update ''prepared'' (PBool True)
                                            (AList.update ''cmd'' (PDict batched) p)))))
                else Inr params1)
      else Inr params1)"

text \<open>
  Lines 59 to 68, one slot: \<^verbatim>\<open>None\<close> adds nothing; a mapping with \<^verbatim>\<open>cmd\<close> adds
  \<^verbatim>\<open>encode_cmd(i['cmd']) + '&' + urlencode({'halt': i['halt']}) + '&'\<close>; any
  other mapping adds \<^verbatim>\<open>urlencode(i) + '&'\<close>.
\<close>

fun encode_slot :: "env \<Rightarrow> dict option \<Rightarrow> error + string" where
  "encode_slot E None = Inr []"
| "encode_slot E (Some i) =
     (if ''cmd'' \<in> set (map fst i)
      then (case map_of i ''cmd'' of
              None \<Rightarrow> Inl KeyError
            | Some cmd \<Rightarrow>
                (case encode_cmd E cmd of
                   Inl e \<Rightarrow> Inl e
                 | Inr ce \<Rightarrow>
                     (case map_of i ''halt'' of
                        None \<Rightarrow> Inl KeyError
                      | Some h \<Rightarrow>
                          (case urlencode E (PDict [(''halt'', h)]) of
                             Inl e \<Rightarrow> Inl e
                           | Inr he \<Rightarrow> Inr (ce @ ''&'' @ he @ ''&'')))))
      else (case urlencode E (PDict i) of
              Inl e \<Rightarrow> Inl e
            | Inr s \<Rightarrow> Inr (s @ ''&'')))"

fun encode_slots :: "env \<Rightarrow> dict option list \<Rightarrow> string \<Rightarrow> error + string" where
  "encode_slots E [] encoded_parameters = Inr encoded_parameters"
| "encode_slots E (i # slots) encoded_parameters =
     (case encode_slot E i of
        Inl e \<Rightarrow> Inl e
      | Inr s \<Rightarrow> encode_slots E slots (encoded_parameters @ s))"

text \<open>The fifth slot: \<^verbatim>\<open>{'auth': self.auth_token} if self.auth_token else None\<close>.\<close>

definition auth_slot :: "client \<Rightarrow> dict option" where
  "auth_slot c = (if py_truthy (auth_token c) then Some [(''auth'', auth_token c)] else None)"

text \<open>
  Lines 70 to 83: the request goes to the URL of \<open>get_url\<close>; the body of the
  response is decoded, and the three failures that the source catches become the
  three error results.
\<close>

definition error_result :: "string \<Rightarrow> pyval" where
  "error_result msg = PDict [(''error'', PStr msg)]"

text \<open>
  \<^verbatim>\<open>post(url, data=encoded_parameters, timeout=self.timeout)\<close>.
\<close>

definition api_request :: "client \<Rightarrow> string \<Rightarrow> string \<Rightarrow> request" where
  "api_request c method encoded_parameters =
     \<lparr>req_url = get_url c method, req_data = encoded_parameters,
      req_params = [], req_timeout = Some timeout\<rparr>"

definition api_post :: "env \<Rightarrow> client \<Rightarrow> string \<Rightarrow> string \<Rightarrow> pyval \<times> client" where
  "api_post E c method encoded_parameters =
     (let r = api_request c method encoded_parameters;
          c1 = c\<lparr>sent := sent c @ [r]\<rparr>
      in case post E (sent c) r of
           Response text \<Rightarrow>
             (case loads E text of
                Some result \<Rightarrow> (result, c1)
              | None \<Rightarrow> (error_result (''Error on decode api response ['' @ text @ '']''), c1))
         | TimedOut \<Rightarrow>
             (error_result (''Timeout waiting expired ['' @ dec_nat timeout @ '' sec]''), c1)
         | Unreachable \<Rightarrow>
             (error_result (''Max retries exceeded ['' @ dec_nat DEFAULT_RETRIES @ '']''), c1))"

section \<open>refresh_tokens\<close>

text \<open>
  One request to the OAuth server, without body and without timeout. The faults of
  the transport are not caught. \<^verbatim>\<open>except (ValueError, KeyError)\<close> catches the
  failure of the decoder and a missing key; the assignments run in the source's
  order, \<^verbatim>\<open>self.auth_token = result['access_token']\<close> first, then
  \<^verbatim>\<open>self.refresh_token = result['refresh_token']\<close>. A decoded value that is no
  mapping makes the subscript a TypeError, which is not caught. Success is Python's
  \<^verbatim>\<open>True\<close>.
\<close>

definition oauth_failure :: "string \<Rightarrow> pyval" where
  "oauth_failure text = error_result (''Error on decode oauth response ['' @ text @ '']'')"

text \<open>
  \<^verbatim>\<open>post(self.oauth_url, params={'grant_type': 'refresh_token', ...})\<close>.
\<close>

definition oauth_request :: "client \<Rightarrow> request" where
  "oauth_request c =
     \<lparr>req_url = oauth_url, req_data = [],
      req_params = [(''grant_type'', PStr ''refresh_token''),
                    (''client_id'', PStr (client_id c)),
                    (''client_secret'', PStr (client_secret c)),
                    (''refresh_token'', refresh_token c)],
      req_timeout = None\<rparr>"

definition refresh_tokens :: "env \<Rightarrow> client \<Rightarrow> pyval outcome" where
  "refresh_tokens E c =
     (let r = oauth_request c;
          c1 = c\<lparr>sent := sent c @ [r]\<rparr>
      in case post E (sent c) r of
           TimedOut \<Rightarrow> (Inl ReadTimeout, c1)
         | Unreachable \<Rightarrow> (Inl ConnectionError, c1)
         | Response text \<Rightarrow>
             (case loads E text of
                None \<Rightarrow> (Inr (oauth_failure text), c1)
              | Some result \<Rightarrow>
                  (case py_getitem result (PStr ''access_token'') of
                     Inl e \<Rightarrow> ((if e = KeyError then Inr (oauth_failure text) else Inl e), c1)
                   | Inr a \<Rightarrow>
                       (let c2 = c1\<lparr>auth_token := a\<rparr>
                        in case py_getitem result (PStr ''refresh_token'') of
                             Inl e \<Rightarrow>
                               ((if e = KeyError then Inr (oauth_failure text) else Inl e), c2)
                           | Inr t \<Rightarrow> (Inr (PBool True), c2\<lparr>refresh_token := t\<rparr>)))))"

definition get_tokens :: "client \<Rightarrow> pyval" where
  "get_tokens c = PDict [(''auth_token'', auth_token c), (''refresh_token'', refresh_token c)]"

section \<open>The body of call and its re-issues\<close>

text \<open>
  \<^verbatim>\<open>'error' in result and result['error']\<close>: the error code of a result, if it
  has one. Both operations can raise on a result that is no mapping.
\<close>

definition error_code :: "pyval \<Rightarrow> error + pyval option" where
  "error_code result =
     (case py_in ''error'' result of
        Inl e \<Rightarrow> Inl e
      | Inr False \<Rightarrow> Inr None
      | Inr True \<Rightarrow>
          (case py_getitem result (PStr ''error'') of
             Inl e \<Rightarrow> Inl e
           | Inr v \<Rightarrow> Inr (Some v)))"

text \<open>
  One pass through the body of \<^verbatim>\<open>call\<close>. It ends in a \<^verbatim>\<open>return\<close> or a fault
  (\<open>Return\<close>), or at one of the two places where the source calls itself
  (\<open>Reissue\<close>): then it gives the client as it is at that moment and the first
  bundle as lines 55 to 57 left it; the method and the other three bundles are passed
  on as they came. A fault leaves the client as it was when the fault was raised.
  What the pass does to the objects of its caller (the first bundle, and the lists
  that \<^verbatim>\<open>prepare_batch\<close> pops) is not part of what it gives back.
\<close>

datatype verdict = Return "pyval outcome" | Reissue client "dict option"

definition attempt ::
  "env \<Rightarrow> client \<Rightarrow> pyval \<Rightarrow> dict option \<Rightarrow> dict option \<Rightarrow> dict option \<Rightarrow> dict option \<Rightarrow> verdict"
where
  "attempt E c method params1 params2 params3 params4 =
     (case method of
        PStr m \<Rightarrow>
          if m = [] then Return (Inl (Exception ''Empty Method''), c)
          else
            (case prepare_params1 E m params1 of
               Inl e \<Rightarrow> Return (Inl e, c)
             | Inr p1 \<Rightarrow>
                 (case encode_slots E [p1, params2, params3, params4, auth_slot c] [] of
                    Inl e \<Rightarrow> Return (Inl e, c)
                  | Inr encoded_parameters \<Rightarrow>
                      (case api_post E c m encoded_parameters of
                         (result, c1) \<Rightarrow>
                           (case error_code result of
                              Inl e \<Rightarrow> Return (Inl e, c1)
                            | Inr code \<Rightarrow>
                                if code = Some (PStr ''NO_AUTH_FOUND'')
                                   \<or> code = Some (PStr ''expired_token'')
                                then (case refresh_tokens E c1 of
                                        (Inl e, c2) \<Rightarrow> Return (Inl e, c2)
                                      | (Inr r, c2) \<Rightarrow>
                                          if r \<noteq> PBool True then Return (Inr r, c2)
                                          else Reissue c2 p1)
                                else if code = Some (PStr ''QUERY_LIMIT_EXCEEDED'')
                                then Reissue (c1\<lparr>slept := slept c1 + 2\<rparr>) p1
                                else Return (Inr result, c1)))))
      | _ \<Rightarrow> Return (Inl (Exception ''Empty Method''), c))"

text \<open>
  \<^verbatim>\<open>call\<close> re-issues itself without bound. The first argument is the number of
  re-issues allowed; \<open>None\<close> says that the pass after the last allowed re-issue
  asked for one more.
\<close>

fun call ::
  "nat \<Rightarrow> env \<Rightarrow> client \<Rightarrow> pyval \<Rightarrow> dict option \<Rightarrow> dict option \<Rightarrow> dict option \<Rightarrow> dict option
     \<Rightarrow> pyval outcome option"
where
  "call 0 E c method params1 params2 params3 params4 =
     (case attempt E c method params1 params2 params3 params4 of
        Return r \<Rightarrow> Some r
      | Reissue c' p1 \<Rightarrow> None)"
| "call (Suc fuel) E c method params1 params2 params3 params4 =
     (case attempt E c method params1 params2 params3 params4 of
        Return r \<Rightarrow> Some r
      | Reissue c' p1 \<Rightarrow> call fuel E c' method p1 params2 params3 params4)"

section \<open>batch\<close>

text \<open>
  The accumulator \<^verbatim>\<open>result['result']\<close>: four named sub-maps, empty at the start,
  in the order of the source.
\<close>

type_synonym accum = "(string \<times> dict) list"

definition empty_accum :: accum where
  "empty_accum = [(''result_error'', []), (''result_total'', []), (''result'', []),
                  (''result_next'', [])]"

definition wrap_accum :: "accum \<Rightarrow> pyval" where
  "wrap_accum acc = PDict [(''result'', PDict (map (\<lambda>kd. (fst kd, PDict (snd kd))) acc))]"

text \<open>
  \<^verbatim>\<open>result['result'][i]\<close> read from the accumulator, whose keys are strings:
  the key found comes back with its sub-map.
\<close>

fun accum_get :: "accum \<Rightarrow> pyval \<Rightarrow> error + string \<times> dict" where
  "accum_get acc (PStr k) =
     (case map_of acc k of None \<Rightarrow> Inl KeyError | Some y \<Rightarrow> Inr (k, y))"
| "accum_get acc (PList l) = Inl TypeError"
| "accum_get acc (PDict d) = Inl TypeError"
| "accum_get acc i = Inl KeyError"

text \<open>
  Lines 191 to 193, with \<open>tr\<close> for \<^verbatim>\<open>temp['result']\<close>:
  \<^verbatim>\<open>
  for i in temp['result']:
      if len(temp['result'][i]) > 0:
          result['result'][i] = self.merge_two_dicts(temp['result'][i], result['result'][i])
  \<close>
\<close>

fun merge_keys :: "pyval \<Rightarrow> pyval list \<Rightarrow> accum \<Rightarrow> error + accum" where
  "merge_keys tr [] acc = Inr acc"
| "merge_keys tr (i # rest) acc =
     (case py_getitem tr i of
        Inl e \<Rightarrow> Inl e
      | Inr x \<Rightarrow>
          (case py_len x of
             Inl e \<Rightarrow> Inl e
           | Inr n \<Rightarrow>
               if n > 0
               then (case accum_get acc i of
                       Inl e \<Rightarrow> Inl e
                     | Inr (k, y) \<Rightarrow>
                         (case merge_two_dicts x y of
                            Inl e \<Rightarrow> Inl e
                          | Inr z \<Rightarrow> merge_keys tr rest (AList.update k z acc)))
               else merge_keys tr rest acc))"

definition merge_chunk :: "pyval \<Rightarrow> accum \<Rightarrow> error + accum" where
  "merge_chunk temp acc =
     (case py_getitem temp (PStr ''result'') of
        Inl e \<Rightarrow> Inl e
      | Inr tr \<Rightarrow>
          (case py_iter tr of
             Inl e \<Rightarrow> Inl e
           | Inr keys \<Rightarrow> merge_keys tr keys acc))"

text \<open>
  Lines 190 to 193: one chunk is sent with
  \<^verbatim>\<open>self.call('batch', {'halt': params['halt'], 'cmd': batch})\<close> and its result
  merged into the accumulator.
\<close>

definition chunk_step ::
  "nat \<Rightarrow> env \<Rightarrow> pyval \<Rightarrow> dict \<Rightarrow> accum \<Rightarrow> client \<Rightarrow> accum outcome option"
where
  "chunk_step fuel E halt batch acc c =
     (case call fuel E c (PStr ''batch'') (Some [(''halt'', halt), (''cmd'', PDict batch)])
             None None None of
        None \<Rightarrow> None
      | Some (Inl e, c') \<Rightarrow> Some (Inl e, c')
      | Some (Inr temp, c') \<Rightarrow>
          (case merge_chunk temp acc of
             Inl e \<Rightarrow> Some (Inl e, c')
           | Inr acc' \<Rightarrow> Some (Inr acc', c')))"

text \<open>
  The loop of lines 186 to 194 over the sorted request-ids, with the variables
  \<^verbatim>\<open>batch\<close>, \<^verbatim>\<open>count\<close> and the accumulator. Every chunk is a fresh mapping,
  and no request-id is in two chunks, so each description is read as the caller
  wrote it.
\<close>

fun batch_ids ::
  "nat \<Rightarrow> env \<Rightarrow> pyval \<Rightarrow> dict \<Rightarrow> string list \<Rightarrow> dict \<Rightarrow> nat \<Rightarrow> accum \<Rightarrow> client
     \<Rightarrow> pyval outcome option"
where
  "batch_ids fuel E halt cmd [] batch count acc c = Some (Inr (wrap_accum acc), c)"
| "batch_ids fuel E halt cmd (request_id # ids) batch count acc c =
     (case map_of cmd request_id of
        None \<Rightarrow> Some (Inl KeyError, c)
      | Some v \<Rightarrow>
          (let batch' = AList.update request_id v batch; count' = count + 1
           in if length batch' = 49 \<or> count' = length cmd
              then (case chunk_step fuel E halt batch' acc c of
                      None \<Rightarrow> None
                    | Some (Inl e, c') \<Rightarrow> Some (Inl e, c')
                    | Some (Inr acc', c') \<Rightarrow> batch_ids fuel E halt cmd ids [] count' acc' c')
              else batch_ids fuel E halt cmd ids batch' count' acc c))"

text \<open>
  \<^verbatim>\<open>batch(params)\<close>. \<^verbatim>\<open>params['cmd'].keys()\<close> is an AttributeError when
  \<^verbatim>\<open>cmd\<close> is no mapping.
\<close>

definition batch :: "nat \<Rightarrow> env \<Rightarrow> client \<Rightarrow> dict \<Rightarrow> pyval outcome option" where
  "batch fuel E c params =
     (if ''halt'' \<notin> set (map fst params) \<or> ''cmd'' \<notin> set (map fst params)
      then Some (Inr (error_result ''Invalid batch structure''), c)
      else (case map_of params ''cmd'' of
              None \<Rightarrow> Some (Inl KeyError, c)
            | Some (PDict cmd) \<Rightarrow>
                (case map_of params ''halt'' of
                   None \<Rightarrow> Some (Inl KeyError, c)
                 | Some halt \<Rightarrow>
                     batch_ids fuel E halt cmd (sort (map fst cmd)) [] 0 empty_accum c)
            | Some v \<Rightarrow> Some (Inl AttributeError, c)))"

section \<open>Notions used to state the properties\<close>




text \<open>
  The string \<^verbatim>\<open><method>?<encoded remainder>\<close> of a description: the method name,
  a question mark, and each remaining element form-encoded and followed by \<^verbatim>\<open>&\<close>.
\<close>

fun encoded_remainder :: "env \<Rightarrow> pyval list \<Rightarrow> string" where
  "encoded_remainder E [] = []"
| "encoded_remainder E (i # rest) =
     (case urlencode E i of Inl e \<Rightarrow> [] | Inr s \<Rightarrow> s @ ''&'') @ encoded_remainder E rest"

fun method_query :: "env \<Rightarrow> pyval \<Rightarrow> pyval" where
  "method_query E (PList (PStr m # rest)) = PStr (m @ ''?'' @ encoded_remainder E rest)"
| "method_query E v = v"

text \<open>A description after \<^verbatim>\<open>pop(0)\<close>.\<close>

fun popped :: "pyval \<Rightarrow> pyval" where
  "popped (PList (x # rest)) = PList rest"
| "popped v = v"

text \<open>
  What \<^verbatim>\<open>prepare_batch\<close> is expected to build for the given request-ids, in
  their order, and what it is expected to leave in the caller's map when it has
  handled these ids.
\<close>

definition prepared_of :: "env \<Rightarrow> dict \<Rightarrow> string list \<Rightarrow> dict" where
  "prepared_of E cmd ids =
     List.map_filter (\<lambda>k. map_option (\<lambda>v. (k, method_query E v)) (map_of cmd k)) ids"

definition popped_ids :: "string list \<Rightarrow> dict \<Rightarrow> dict" where
  "popped_ids ids cmd =
     map (\<lambda>kv. if fst kv \<in> set ids then (fst kv, popped (snd kv)) else kv) cmd"

text \<open>
  The chunk that holds the given request-ids, in their order, with the descriptions
  of the command map.
\<close>

definition chunk_of :: "dict \<Rightarrow> string list \<Rightarrow> dict" where
  "chunk_of cmd ids = List.map_filter (\<lambda>k. map_option (Pair k) (map_of cmd k)) ids"

text \<open>
  The specification's reading of \<^verbatim>\<open>batch\<close>, to compare the loop with: the chunks
  are given; each is sent and merged in turn, and the accumulator is returned at the
  end.
\<close>

fun run_chunks ::
  "nat \<Rightarrow> env \<Rightarrow> pyval \<Rightarrow> dict list \<Rightarrow> accum \<Rightarrow> client \<Rightarrow> pyval outcome option"
where
  "run_chunks fuel E halt [] acc c = Some (Inr (wrap_accum acc), c)"
| "run_chunks fuel E halt (chunk # chunks) acc c =
     (case chunk_step fuel E halt chunk acc c of
        None \<Rightarrow> None
      | Some (Inl e, c') \<Rightarrow> Some (Inl e, c')
      | Some (Inr acc', c') \<Rightarrow> run_chunks fuel E halt chunks acc' c')"

section \<open>Sample collaborators and inputs\<close>

text \<open>
  Concrete collaborators and inputs for the runs below. The sample encoder renders
  a mapping of scalars as \<^verbatim>\<open>k=v\<close> fields joined by \<^verbatim>\<open>&\<close>, one level of nesting
  as \<^verbatim>\<open>k[k2]=v\<close>, and refuses everything else; the sample decoder knows a few
  bodies; the sample remote side answers the n-th request with the n-th outcome of
  a script.
\<close>

fun sample_scalar :: "pyval \<Rightarrow> string option" where
  "sample_scalar (PStr s) = Some s"
| "sample_scalar (PInt i) = Some (dec_int i)"
| "sample_scalar (PBool b) = Some (if b then ''True'' else ''False'')"
| "sample_scalar PNone = Some ''None''"
| "sample_scalar v = None"

fun sample_field :: "string \<Rightarrow> pyval \<Rightarrow> string option" where
  "sample_field k (PDict [(k2, v)]) =
     map_option (\<lambda>s. k @ ''['' @ k2 @ '']='' @ s) (sample_scalar v)"
| "sample_field k v = map_option (\<lambda>s. k @ ''='' @ s) (sample_scalar v)"

fun sample_fields :: "dict \<Rightarrow> string option" where
  "sample_fields [] = Some []"
| "sample_fields [(k, v)] = sample_field k v"
| "sample_fields ((k, v) # rest) =
     (case sample_field k v of
        None \<Rightarrow> None
      | Some s \<Rightarrow> map_option (\<lambda>t. s @ ''&'' @ t) (sample_fields rest))"

fun sample_urlencode :: "pyval \<Rightarrow> error + string" where
  "sample_urlencode (PDict d) =
     (case sample_fields d of None \<Rightarrow> Inl TypeError | Some s \<Rightarrow> Inr s)"
| "sample_urlencode v = Inl TypeError"

definition scripted :: "http_outcome list \<Rightarrow> request list \<Rightarrow> request \<Rightarrow> http_outcome" where
  "scripted outcomes history r =
     (if length history < length outcomes then outcomes ! length history else Unreachable)"

definition sample_loads :: "string \<Rightarrow> pyval option" where
  "sample_loads = map_of
     [(''{error: expired_token}'', PDict [(''error'', PStr ''expired_token'')]),
      (''{access_token: A2, refresh_token: R2}'',
         PDict [(''access_token'', PStr ''A2''), (''refresh_token'', PStr ''R2'')]),
      (''{access_token: A2}'', PDict [(''access_token'', PStr ''A2'')]),
      (''{result: 7}'', PDict [(''result'', PInt 7)]),
      (''{result: {result: {10: first}}}'',
         PDict [(''result'', PDict [(''result'', PDict [(''10'', PStr ''first'')])])]),
      (''{result: {result: {59: other, 10: second}}}'',
         PDict [(''result'', PDict [(''result'',
            PDict [(''59'', PStr ''other''), (''10'', PStr ''second'')])])]),
      (''{result: {result: {a: 1}, result_total: {a: 5}}}'',
         PDict [(''result'', PDict [(''result'', PDict [(''a'', PInt 1)]),
                                    (''result_total'', PDict [(''a'', PInt 5)])])]),
      (''{result: {result: [], result_next: {a: 50}}}'',
         PDict [(''result'', PDict [(''result'', PList []),
                                    (''result_next'', PDict [(''a'', PInt 50)])])]),
      (''{result: {result: {100: u100}}}'',
         PDict [(''result'', PDict [(''result'', PDict [(''100'', PStr ''u100'')])])]),
      (''{result: {result: {149: u149}}}'',
         PDict [(''result'', PDict [(''result'', PDict [(''149'', PStr ''u149'')])])]),
      (''{result: {result: {198: u198}}}'',
         PDict [(''result'', PDict [(''result'', PDict [(''198'', PStr ''u198'')])])])]"

definition sample_env :: "http_outcome list \<Rightarrow> env" where
  "sample_env outcomes =
     \<lparr>loads = sample_loads, urlencode = sample_urlencode, post = scripted outcomes\<rparr>"

definition sample_client :: client where
  "sample_client =
     \<lparr>domain = ''example.bitrix24.ru'', auth_token = PStr ''A1'', refresh_token = PStr ''R1'',
      client_id = ''app'', client_secret = ''secret'', webhook_key = [], webhook_user = 1,
      sent = [], slept = 0\<rparr>"

text \<open>Command maps with 50 and with 120 request-ids, \<^verbatim>\<open>'10'\<close> to \<^verbatim>\<open>'59'\<close> and
  \<^verbatim>\<open>'100'\<close> to \<^verbatim>\<open>'219'\<close>.\<close>

definition sample_cmd :: "nat \<Rightarrow> nat \<Rightarrow> dict" where
  "sample_cmd lo hi =
     map (\<lambda>n. (dec_nat n, PList [PStr ''user.get'', PDict [(''ID'', PInt (int n))]])) [lo..<hi]"

section \<open>Evaluation of the samples\<close>

lemmas sample_defs = sample_env_def sample_client_def scripted_def sample_loads_def

section \<open>Validation of the method (C7)\<close>

text \<open>
  C7. For every method argument that is the empty string or not a string
  (\<^verbatim>\<open>None\<close> included), \<^verbatim>\<open>call\<close> raises \<^verbatim>\<open>Exception('Empty Method')\<close>, the
  client's invalid-argument fault, whatever the other arguments and however many
  re-issues are allowed. The client that comes back is the client that went in: its
  list of sent requests has not grown, the transport was invoked zero times.
\<close>

theorem call_empty_method:
  "method = PStr [] \<or> \<not> is_str method \<Longrightarrow>
     call fuel E c method params1 params2 params3 params4
       = Some (Inl (Exception ''Empty Method''), c)"
  by (cases fuel; cases "method") (auto simp: attempt_def)

theorem call_empty_method_witness:
  "(PNone = PStr [] \<or> \<not> is_str PNone)
   \<and> call 5 (sample_env [Response ''{result: 7}'']) sample_client PNone
        (Some [(''ID'', PInt 5)]) None None None
       = Some (Inl (Exception ''Empty Method''), sample_client)
   \<and> sent sample_client = []"
  using call_empty_method [of PNone 5 "sample_env [Response ''{result: 7}'']" sample_client
      "Some [(''ID'', PInt 5)]" None None None]
  by (simp add: sample_client_def)

section \<open>Selection of the URL (C8)\<close>


section \<open>A refresh that fails half-way (C3)\<close>

text \<open>
  C3 says that a failing \<^verbatim>\<open>refresh_tokens\<close> returns the failure result and leaves
  both stored tokens as they were. The run below is a failing refresh: the OAuth
  response decodes to a mapping that has \<^verbatim>\<open>access_token\<close> and lacks
  \<^verbatim>\<open>refresh_token\<close>. The failure result comes back, the refresh token is
  unchanged, but the stored auth token has been replaced by the value of the response:
  the first assignment ran before the second subscript raised.
\<close>

theorem refresh_tokens_half_update:
  "refresh_tokens (sample_env [Response ''{access_token: A2}'']) sample_client
     = (Inr (PDict [(''error'', PStr ''Error on decode oauth response [{access_token: A2}]'')]),
        sample_client\<lparr>auth_token := PStr ''A2'',
                       sent := [oauth_request sample_client]\<rparr>)
   \<and> auth_token sample_client = PStr ''A1''"
  by (simp add: refresh_tokens_def sample_env_def sample_client_def scripted_def
        sample_loads_def oauth_failure_def error_result_def oauth_request_def Let_def)

text \<open>
  The two other failing paths do leave the tokens alone: when the body is not valid
  JSON, and when the decoded mapping lacks \<^verbatim>\<open>access_token\<close>, the failure result
  comes back and the client differs from the one before only in the request it sent.
\<close>

lemma refresh_tokens_keeps_tokens:
  assumes "post E (sent c) (oauth_request c) = Response body"
      and "loads E body = None
           \<or> (\<exists>d. loads E body = Some (PDict d) \<and> map_of d ''access_token'' = None)"
  shows "refresh_tokens E c
           = (Inr (oauth_failure body), c\<lparr>sent := sent c @ [oauth_request c]\<rparr>)"
  using assms by (auto simp: refresh_tokens_def Let_def)

section \<open>Expired authorisation: refresh, then one re-issue (C4)\<close>

lemma api_post_sent:
  "api_post E c m body = (result, c1) \<Longrightarrow> c1 = c\<lparr>sent := sent c @ [api_request c m body]\<rparr>"
  by (auto simp: api_post_def Let_def split: http_outcome.splits option.splits)

lemma refresh_tokens_sent:
  "refresh_tokens E c = (x, c') \<Longrightarrow> sent c' = sent c @ [oauth_request c]"
  by (auto simp: refresh_tokens_def Let_def
           split: http_outcome.splits option.splits sum.splits if_splits)

lemma refresh_tokens_success:
  assumes "refresh_tokens E c = (Inr (PBool True), c')"
  shows "\<exists>text tokens.
           post E (sent c) (oauth_request c) = Response text
         \<and> loads E text = Some tokens
         \<and> py_getitem tokens (PStr ''access_token'') = Inr (auth_token c')
         \<and> py_getitem tokens (PStr ''refresh_token'') = Inr (refresh_token c')"
  using assms
  by (auto simp: refresh_tokens_def Let_def oauth_failure_def error_result_def
           split: http_outcome.splits option.splits sum.splits if_splits)

text \<open>
  C4. Take a pass of \<^verbatim>\<open>call\<close> in which the method is a non-empty string, the
  preprocessing and the encoding go through, and the decoded response carries
  \<^verbatim>\<open>error\<close> equal to \<^verbatim>\<open>NO_AUTH_FOUND\<close> or \<^verbatim>\<open>expired_token\<close>. Then
  \<^item> if the token refresh returns a failure result, \<^verbatim>\<open>call\<close> returns that result,
    whatever number of re-issues is allowed, and the requests sent are the original
    request and the request to the OAuth server, no more;
  \<^item> if the refresh succeeds, \<^verbatim>\<open>call\<close> with one more re-issue allowed is the
    re-issued \<^verbatim>\<open>call\<close>: one re-issue for this failure, with the same method, the
    same first bundle as lines 55 to 57 left it (the object that the caller passed
    in) and the same three other bundles, on a client whose stored auth token is
    the \<^verbatim>\<open>access_token\<close> value of the decoded refresh response;
  \<^item> the first bundle has its original content unless the method is \<^verbatim>\<open>batch\<close> and
    the bundle was not yet marked as prepared.
\<close>

theorem call_auth_expired:
  assumes prep: "prepare_params1 E m params1 = Inr p1"
      and nonempty: "m \<noteq> []"
      and enc: "encode_slots E [p1, params2, params3, params4, auth_slot c] [] = Inr encoded"
      and posted: "api_post E c m encoded = (result, c1)"
      and code: "error_code result = Inr (Some (PStr code))"
      and expired: "code = ''NO_AUTH_FOUND'' \<or> code = ''expired_token''"
  shows "(refresh_tokens E c1 = (Inr failure, c2) \<and> failure \<noteq> PBool True \<longrightarrow>
            call fuel E c (PStr m) params1 params2 params3 params4 = Some (Inr failure, c2)
          \<and> sent c2 = sent c @ [api_request c m encoded, oauth_request c1])
       \<and> (refresh_tokens E c1 = (Inr (PBool True), c3) \<longrightarrow>
            call (Suc fuel) E c (PStr m) params1 params2 params3 params4
              = call fuel E c3 (PStr m) p1 params2 params3 params4
          \<and> (\<exists>text tokens.
                post E (sent c1) (oauth_request c1) = Response text
              \<and> loads E text = Some tokens
              \<and> py_getitem tokens (PStr ''access_token'') = Inr (auth_token c3)))
       \<and> (m \<noteq> ''batch'' \<or> (\<exists>p. params1 = Some p \<and> ''prepared'' \<in> set (map fst p)) \<longrightarrow>
            p1 = params1)"
proof (intro conjI impI)
  assume fail: "refresh_tokens E c1 = (Inr failure, c2) \<and> failure \<noteq> PBool True"
  have att: "attempt E c (PStr m) params1 params2 params3 params4 = Return (Inr failure, c2)"
    using prep nonempty enc posted code expired fail by (auto simp: attempt_def)
  show "call fuel E c (PStr m) params1 params2 params3 params4 = Some (Inr failure, c2)"
    using att by (cases fuel) simp_all
  show "sent c2 = sent c @ [api_request c m encoded, oauth_request c1]"
    using fail api_post_sent [OF posted] refresh_tokens_sent [of E c1 "Inr failure" c2] by simp
next
  assume ok: "refresh_tokens E c1 = (Inr (PBool True), c3)"
  have att: "attempt E c (PStr m) params1 params2 params3 params4 = Reissue c3 p1"
    using prep nonempty enc posted code expired ok by (auto simp: attempt_def)
  show "call (Suc fuel) E c (PStr m) params1 params2 params3 params4
          = call fuel E c3 (PStr m) p1 params2 params3 params4"
    using att by simp
  show "\<exists>text tokens.
          post E (sent c1) (oauth_request c1) = Response text
        \<and> loads E text = Some tokens
        \<and> py_getitem tokens (PStr ''access_token'') = Inr (auth_token c3)"
    using refresh_tokens_success [OF ok] by blast
next
  assume "m \<noteq> ''batch'' \<or> (\<exists>p. params1 = Some p \<and> ''prepared'' \<in> set (map fst p))"
  then show "p1 = params1"
    using prep by (force simp: prepare_params1_def split: if_splits)
qed

theorem call_auth_expired_witness:
  "call (Suc 0) (sample_env [Response ''{error: expired_token}'',
                       Response ''{access_token: A2, refresh_token: R2}'',
                       Response ''{result: 7}''])
        sample_client (PStr ''user.get'') (Some [(''ID'', PInt 5)]) None None None
     = call 0 (sample_env [Response ''{error: expired_token}'',
                       Response ''{access_token: A2, refresh_token: R2}'',
                       Response ''{result: 7}''])
        (sample_client\<lparr>auth_token := PStr ''A2'', refresh_token := PStr ''R2'',
           sent := [api_request sample_client ''user.get'' ''ID=5&auth=A1&'',
                    oauth_request sample_client]\<rparr>)
        (PStr ''user.get'') (Some [(''ID'', PInt 5)]) None None None
   \<and> call (Suc 0) (sample_env [Response ''{error: expired_token}'', Response ''<html>''])
        sample_client (PStr ''user.get'') (Some [(''ID'', PInt 5)]) None None None
     = Some (Inr (oauth_failure ''<html>''),
             sample_client\<lparr>sent := [api_request sample_client ''user.get'' ''ID=5&auth=A1&'',
                                     oauth_request sample_client]\<rparr>)"
proof -
  let ?ok = "sample_env [Response ''{error: expired_token}'',
                       Response ''{access_token: A2, refresh_token: R2}'',
                       Response ''{result: 7}'']"
  let ?bad = "sample_env [Response ''{error: expired_token}'', Response ''<html>'']"
  let ?p = "Some [(''ID'', PInt 5)]"
  let ?c1 = "sample_client\<lparr>sent := [api_request sample_client ''user.get'' ''ID=5&auth=A1&'']\<rparr>"
  let ?c3 = "sample_client\<lparr>auth_token := PStr ''A2'', refresh_token := PStr ''R2'',
           sent := [api_request sample_client ''user.get'' ''ID=5&auth=A1&'',
                    oauth_request sample_client]\<rparr>"
  let ?c2 = "sample_client\<lparr>sent := [api_request sample_client ''user.get'' ''ID=5&auth=A1&'',
                                     oauth_request sample_client]\<rparr>"
  let ?result = "PDict [(''error'', PStr ''expired_token'')]"
  have prep_ok: "prepare_params1 ?ok ''user.get'' ?p = Inr ?p"
   and prep_bad: "prepare_params1 ?bad ''user.get'' ?p = Inr ?p"
    by (simp_all add: prepare_params1_def)
  have ne: "''user.get'' \<noteq> []" by simp
  have enc_ok: "encode_slots ?ok [?p, None, None, None, auth_slot sample_client] []
                  = Inr ''ID=5&auth=A1&''"
   and enc_bad: "encode_slots ?bad [?p, None, None, None, auth_slot sample_client] []
                  = Inr ''ID=5&auth=A1&''"
    by (simp_all add: auth_slot_def sample_defs dec_int_def digit_char_def)
  have post_ok: "api_post ?ok sample_client ''user.get'' ''ID=5&auth=A1&'' = (?result, ?c1)"
   and post_bad: "api_post ?bad sample_client ''user.get'' ''ID=5&auth=A1&'' = (?result, ?c1)"
    by (simp_all add: api_post_def sample_defs Let_def)
  have code: "error_code ?result = Inr (Some (PStr ''expired_token''))"
    by (simp add: error_code_def)
  have which: "''expired_token'' = ''NO_AUTH_FOUND'' \<or> ''expired_token'' = ''expired_token''"
    by simp
  have refresh_ok: "refresh_tokens ?ok ?c1 = (Inr (PBool True), ?c3)"
    by (simp add: refresh_tokens_def sample_defs Let_def oauth_request_def)
  have refresh_bad: "refresh_tokens ?bad ?c1 = (Inr (oauth_failure ''<html>''), ?c2)
                     \<and> oauth_failure ''<html>'' \<noteq> PBool True"
    by (simp add: refresh_tokens_def sample_defs Let_def oauth_request_def oauth_failure_def
          error_result_def)
  show ?thesis
    using call_auth_expired [OF prep_ok ne enc_ok post_ok code which,
            where fuel = 0 and ?c3.0 = ?c3] refresh_ok
          call_auth_expired [OF prep_bad ne enc_bad post_bad code which,
            where fuel = "Suc 0" and failure = "oauth_failure ''<html>''" and ?c2.0 = ?c2] refresh_bad
    by blast
qed

section \<open>encode_cmd does not depend on the order of the map (C9)\<close>

lemma encode_ids_map_of:
  "map_of xs = map_of ys \<Longrightarrow> encode_ids E xs ids acc = encode_ids E ys ids acc"
  by (induction ids arbitrary: acc) (auto split: option.splits sum.splits)

lemma sort_keys_eq:
  assumes "distinct (map fst xs)" "distinct (map fst ys)" "set xs = set ys"
  shows "sort (map fst xs) = sort (map fst ys)"
proof (rule sorted_distinct_set_unique)
  show "set (sort (map fst xs)) = set (sort (map fst ys))"
    using assms(3) by simp
qed (use assms in simp_all)

lemma encode_ids_all_ok:
  assumes "\<forall>k \<in> set ids. \<exists>v. map_of cmd k = Some v
             \<and> urlencode E (PDict [(''cmd'', PDict [(k, v)])]) = Inr (f k)"
  shows "encode_ids E cmd ids acc = Inr (acc @ concat (map (\<lambda>k. f k @ ''&'') ids))"
  using assms by (induction ids arbitrary: acc) auto

text \<open>
  C9. Two command maps with the same set of key-value pairs, whatever the order in
  which each holds them, are encoded by \<^verbatim>\<open>encode_cmd\<close> to the same outcome, the
  same string when the encoder accepts the entries. The string is built over the
  request-ids in sorted order: when every entry is encoded to \<open>f id\<close>, the result
  is the concatenation of \<open>f id\<close> followed by \<^verbatim>\<open>&\<close> over the sorted ids. Applied
  twice to the same map, \<^verbatim>\<open>encode_cmd\<close> gives the same string, being a function of
  the map and the encoder.
\<close>

theorem encode_cmd_deterministic:
  assumes "distinct (map fst xs)" and "distinct (map fst ys)" and "set xs = set ys"
  shows "encode_cmd E (PDict xs) = encode_cmd E (PDict ys)
       \<and> ((\<forall>kv \<in> set xs. urlencode E (PDict [(''cmd'', PDict [kv])]) = Inr (f (fst kv))) \<longrightarrow>
            encode_cmd E (PDict ys)
              = Inr (concat (map (\<lambda>k. f k @ ''&'') (sort (map fst xs)))))"
proof -
  have maps: "map_of xs = map_of ys"
    using assms by (simp add: map_of_inject_set)
  have keys: "sort (map fst xs) = sort (map fst ys)"
    using assms by (rule sort_keys_eq)
  have same: "encode_cmd E (PDict xs) = encode_cmd E (PDict ys)"
    using keys encode_ids_map_of [OF maps] by simp
  have all_ok: "encode_cmd E (PDict ys)
              = Inr (concat (map (\<lambda>k. f k @ ''&'') (sort (map fst xs))))"
    if ok: "\<forall>kv \<in> set xs. urlencode E (PDict [(''cmd'', PDict [kv])]) = Inr (f (fst kv))"
  proof -
    have "\<forall>k \<in> set (sort (map fst xs)). \<exists>v. map_of xs k = Some v
             \<and> urlencode E (PDict [(''cmd'', PDict [(k, v)])]) = Inr (f k)"
    proof
      fix k assume "k \<in> set (sort (map fst xs))"
      then obtain v where kv: "(k, v) \<in> set xs" by auto
      then have "map_of xs k = Some v" using assms(1) by simp
      moreover have "urlencode E (PDict [(''cmd'', PDict [(k, v)])]) = Inr (f k)"
        using ok kv by force
      ultimately show "\<exists>v. map_of xs k = Some v
             \<and> urlencode E (PDict [(''cmd'', PDict [(k, v)])]) = Inr (f k)" by blast
    qed
    from encode_ids_all_ok [OF this, of "[]"] same show ?thesis by simp
  qed
  show ?thesis using same all_ok by simp
qed

theorem encode_cmd_deterministic_witness:
  "distinct (map fst [(''b'', PStr ''user.get?''), (''a'', PStr ''crm.deal.list?'')])
   \<and> distinct (map fst [(''a'', PStr ''crm.deal.list?''), (''b'', PStr ''user.get?'')])
   \<and> set [(''b'', PStr ''user.get?''), (''a'', PStr ''crm.deal.list?'')]
       = set [(''a'', PStr ''crm.deal.list?''), (''b'', PStr ''user.get?'')]
   \<and> encode_cmd (sample_env []) (PDict [(''b'', PStr ''user.get?''), (''a'', PStr ''crm.deal.list?'')])
       = encode_cmd (sample_env []) (PDict [(''a'', PStr ''crm.deal.list?''), (''b'', PStr ''user.get?'')])
   \<and> encode_cmd (sample_env []) (PDict [(''a'', PStr ''crm.deal.list?''), (''b'', PStr ''user.get?'')])
       = Inr ''cmd[a]=crm.deal.list?&cmd[b]=user.get?&''"
proof -
  let ?xs = "[(''b'', PStr ''user.get?''), (''a'', PStr ''crm.deal.list?'')]"
  let ?ys = "[(''a'', PStr ''crm.deal.list?''), (''b'', PStr ''user.get?'')]"
  let ?f = "\<lambda>k. if k = ''a'' then ''cmd[a]=crm.deal.list?'' else ''cmd[b]=user.get?''"
  have d1: "distinct (map fst ?xs)" and d2: "distinct (map fst ?ys)" by simp_all
  have s: "set ?xs = set ?ys" by auto
  have ok: "\<forall>kv \<in> set ?xs. urlencode (sample_env []) (PDict [(''cmd'', PDict [kv])])
              = Inr (?f (fst kv))"
    by (simp add: sample_env_def)
  have srt: "sort (map fst ?xs) = [''a'', ''b'']" by simp
  show ?thesis
    using encode_cmd_deterministic [OF d1 d2 s, of "sample_env []" ?f] ok d1 d2 s srt
    by simp
qed

section \<open>prepare_batch: what it returns and what it raises (C6)\<close>

lemma update_fresh: "k \<notin> fst ` set al \<Longrightarrow> AList.update k v al = al @ [(k, v)]"
  by (induction al) auto




lemma prepared_of_Nil [simp]: "prepared_of E cmd [] = []"
  by (simp add: prepared_of_def map_filter_simps)




lemma popped_ids_Nil [simp]: "popped_ids [] cmd = cmd"
  by (simp add: popped_ids_def)












section \<open>prepare_batch changes the caller's map (C10)\<close>



section \<open>Merging a chunk into the accumulator (C1)\<close>

lemma dict_update_lookup:
  "distinct (map fst y) \<Longrightarrow>
     map_of (dict_update x y) k = (case map_of y k of None \<Rightarrow> map_of x k | Some v \<Rightarrow> Some v)"
  unfolding dict_update_def
proof (induction y arbitrary: x)
  case Nil
  then show ?case by simp
next
  case (Cons a y)
  obtain ka va where a: "a = (ka, va)" by (cases a)
  have fresh: "map_of y ka = None" and d: "distinct (map fst y)"
    using Cons.prems a by (simp_all add: map_of_eq_None_iff)
  have ih: "map_of (fold (\<lambda>kv. AList.update (fst kv) (snd kv)) y (AList.update ka va x)) k
              = (case map_of y k of None \<Rightarrow> map_of (AList.update ka va x) k | Some v \<Rightarrow> Some v)"
    by (rule Cons.IH [OF d])
  show ?case
  proof (cases "k = ka")
    case True
    with ih fresh a show ?thesis by (simp add: update_conv')
  next
    case False
    with ih a show ?thesis by (simp add: update_conv' cong: option.case_cong)
  qed
qed

lemma merge_keys_keys:
  "merge_keys tr keys acc = Inr acc' \<Longrightarrow> map fst acc' = map fst acc"
proof (induction keys arbitrary: acc)
  case Nil
  then show ?case by simp
next
  case (Cons i keys)
  show ?case
  proof (cases "\<exists>x n. py_getitem tr i = Inr x \<and> py_len x = Inr n \<and> n > 0")
    case True
    then obtain x n k y z where step: "py_getitem tr i = Inr x" "py_len x = Inr n" "n > 0"
      "accum_get acc i = Inr (k, y)" "merge_two_dicts x y = Inr z"
      "merge_keys tr keys (AList.update k z acc) = Inr acc'"
      using Cons.prems by (auto split: sum.splits if_splits prod.splits)
    from step(4) have "map_of acc k = Some y"
      by (cases i) (auto split: option.splits)
    then have "k \<in> set (map fst acc)" by (force dest: map_of_SomeD)
    then have "map fst (AList.update k z acc) = map fst acc" by (simp add: update_keys)
    with Cons.IH [OF step(6)] show ?thesis by simp
  next
    case False
    then have "merge_keys tr keys acc = Inr acc'"
      using Cons.prems by (auto split: sum.splits if_splits prod.splits)
    then show ?thesis by (rule Cons.IH)
  qed
qed

lemma merge_keys_lookup:
  assumes "distinct ks" and "merge_keys (PDict t) (map PStr ks) acc = Inr acc'"
  shows "map_of acc' name =
           (if name \<in> set ks
            then (case map_of t name of
                    Some (PDict x) \<Rightarrow>
                      if x = [] then map_of acc name
                      else map_option (dict_update x) (map_of acc name)
                  | _ \<Rightarrow> map_of acc name)
            else map_of acc name)"
proof -
  define F where "F = (\<lambda>a. case map_of t name of
                    Some (PDict x) \<Rightarrow> if x = [] then a else map_option (dict_update x) a
                  | _ \<Rightarrow> a)"
  have "map_of acc' name = (if name \<in> set ks then F (map_of acc name) else map_of acc name)"
    using assms
  proof (induction ks arbitrary: acc)
    case Nil
    then show ?case by simp
  next
    case (Cons k ks)
    from Cons.prems(2) obtain x n where x: "map_of t k = Some x" "py_len x = Inr n"
      by (auto split: sum.splits option.splits)
    have k: "k \<notin> set ks" and ks: "distinct ks" using Cons.prems(1) by simp_all
    show ?case
    proof (cases "n > 0")
      case False
      then have rest: "merge_keys (PDict t) (map PStr ks) acc = Inr acc'"
        using Cons.prems(2) x by simp
      have "F (map_of acc k) = map_of acc k" if "name = k"
        using that x False by (cases x) (auto simp: F_def)
      with Cons.IH [OF ks rest] k show ?thesis by auto
    next
      case True
      then obtain y z where step: "map_of acc k = Some y" "merge_two_dicts x y = Inr z"
        "merge_keys (PDict t) (map PStr ks) (AList.update k z acc) = Inr acc'"
        using Cons.prems(2) x by (auto split: sum.splits option.splits)
      from step(2) obtain d where d: "x = PDict d" "z = dict_update d y"
        by (cases x) auto
      have "d \<noteq> []" using x(2) True d(1) by auto
      then have "F (map_of acc k) = Some z" if "name = k"
        using that x(1) d step(1) by (simp add: F_def)
      with Cons.IH [OF ks step(3)] k show ?thesis
        by (auto simp: update_conv')
    qed
  qed
  then show ?thesis by (simp add: F_def)
qed

lemma merge_chunk_lookup:
  assumes "merge_chunk temp acc = Inr acc'"
      and "py_getitem temp (PStr ''result'') = Inr (PDict t)" and "distinct (map fst t)"
  shows "map_of acc' name =
           (case map_of t name of
              Some (PDict x) \<Rightarrow>
                if x = [] then map_of acc name else map_option (dict_update x) (map_of acc name)
            | _ \<Rightarrow> map_of acc name)"
proof -
  have run: "merge_keys (PDict t) (map PStr (map fst t)) acc = Inr acc'"
    using assms(1,2) by (simp add: merge_chunk_def comp_def)
  show ?thesis
  proof (cases "name \<in> set (map fst t)")
    case True
    with merge_keys_lookup [OF assms(3) run, of name] show ?thesis by simp
  next
    case False
    then have "map_of t name = None" by (simp add: map_of_eq_None_iff)
    with merge_keys_lookup [OF assms(3) run, of name] False show ?thesis by simp
  qed
qed

text \<open>
  C1, as the code has it. The loop of \<^verbatim>\<open>batch\<close> merges per sub-map: when the
  \<^verbatim>\<open>result\<close> sub-map of a chunk's response holds a request-id, the whole sub-map is
  merged into the one the accumulator has stored, by
  \<^verbatim>\<open>merge_two_dicts(temp['result'][i], result['result'][i])\<close>. The chunk is the left
  operand and the accumulator the right one, so the precedence of the right operand
  goes to the accumulator: a request-id that the accumulator already holds keeps the
  stored value, and a request-id that it does not hold receives the value of the
  chunk, whether that value is empty or not.
\<close>

theorem batch_merge_keeps_stored:
  assumes "merge_chunk temp acc = Inr acc'"
      and "py_getitem temp (PStr ''result'') = Inr (PDict t)" and "distinct (map fst t)"
      and "map_of t ''result'' = Some (PDict chunk_result)"
      and "map_of chunk_result request_id = Some v"
      and "map_of acc ''result'' = Some stored" and "distinct (map fst stored)"
  shows "map_of acc' ''result'' = Some (dict_update chunk_result stored)
       \<and> merge_two_dicts (PDict chunk_result) stored = Inr (dict_update chunk_result stored)
       \<and> map_of (dict_update chunk_result stored) request_id
           = (case map_of stored request_id of None \<Rightarrow> Some v | Some old \<Rightarrow> Some old)
       \<and> (\<forall>k. map_of (dict_update chunk_result stored) k
                = (case map_of stored k of None \<Rightarrow> map_of chunk_result k | Some old \<Rightarrow> Some old))"
proof -
  have "chunk_result \<noteq> []" using assms(5) by auto
  then have "map_of acc' ''result'' = Some (dict_update chunk_result stored)"
    using merge_chunk_lookup [OF assms(1,2,3), of "''result''"] assms(4,6) by simp
  then show ?thesis
    using dict_update_lookup [OF assms(7)] assms(5) by (simp split: option.splits)
qed

theorem batch_merge_keeps_stored_witness:
  "merge_chunk (PDict [(''result'', PDict [(''result'',
                  PDict [(''59'', PStr ''other''), (''10'', PStr ''second'')])])])
     [(''result_error'', []), (''result_total'', []), (''result'', [(''10'', PStr ''first'')]),
      (''result_next'', [])]
   = Inr [(''result_error'', []), (''result_total'', []),
          (''result'', [(''59'', PStr ''other''), (''10'', PStr ''first'')]),
          (''result_next'', [])]
   \<and> map_of (dict_update [(''59'', PStr ''other''), (''10'', PStr ''second'')]
                [(''10'', PStr ''first'')]) ''10'' = Some (PStr ''first'')"
proof -
  let ?chunk = "[(''59'', PStr ''other''), (''10'', PStr ''second'')]"
  let ?t = "[(''result'', PDict ?chunk)]"
  let ?acc = "[(''result_error'', []), (''result_total'', []),
               (''result'', [(''10'', PStr ''first'')]), (''result_next'', [])]"
  let ?acc' = "[(''result_error'', []), (''result_total'', []),
          (''result'', [(''59'', PStr ''other''), (''10'', PStr ''first'')]),
          (''result_next'', [])]"
  have run: "merge_chunk (PDict [(''result'', PDict ?t)]) ?acc = Inr ?acc'"
    by (simp add: merge_chunk_def dict_update_def)
  have tr: "py_getitem (PDict [(''result'', PDict ?t)]) (PStr ''result'') = Inr (PDict ?t)"
    by simp
  have d: "distinct (map fst ?t)" by simp
  have r: "map_of ?t ''result'' = Some (PDict ?chunk)" by simp
  have v: "map_of ?chunk ''10'' = Some (PStr ''second'')" by simp
  have st: "map_of ?acc ''result'' = Some [(''10'', PStr ''first'')]" by simp
  have ds: "distinct (map fst [(''10'', PStr ''first'')])" by simp
  show ?thesis
    using batch_merge_keeps_stored [OF run tr d r v st ds] run by simp
qed

text \<open>
  The claim as written lets the later chunk overwrite. Fifty request-ids, \<^verbatim>\<open>10\<close>
  to \<^verbatim>\<open>59\<close>, make two chunks and two requests, the first for \<^verbatim>\<open>10\<close> to \<^verbatim>\<open>58\<close>
  and the second for \<^verbatim>\<open>59\<close>. The response to the first has the value \<^verbatim>\<open>first\<close>
  for the id \<^verbatim>\<open>10\<close>, the response to the second the value \<^verbatim>\<open>second\<close> for the same
  id. The mapping that \<^verbatim>\<open>batch\<close> returns has \<^verbatim>\<open>first\<close>.
\<close>

theorem batch_merge_counterexample:
  "map_option fst
     (batch 0 (sample_env [Response ''{result: {result: {10: first}}}'',
                           Response ''{result: {result: {59: other, 10: second}}}''])
        sample_client [(''halt'', PInt 0), (''cmd'', PDict (sample_cmd 10 60))])
   = Some (Inr (PDict [(''result'',
                  PDict [(''result_error'', PDict []),
                         (''result_total'', PDict []),
                         (''result'', PDict [(''59'', PStr ''other''), (''10'', PStr ''first'')]),
                         (''result_next'', PDict [])])]))"
  by code_simp

section \<open>All four sub-maps are merged (C2)\<close>

lemma merge_chunk_keys:
  "merge_chunk temp acc = Inr acc' \<Longrightarrow> map fst acc' = map fst acc"
  by (auto simp: merge_chunk_def split: sum.splits dest: merge_keys_keys)

lemma chunk_step_keys:
  "chunk_step fuel E halt chunk acc c = Some (Inr acc', c') \<Longrightarrow> map fst acc' = map fst acc"
  by (auto simp: chunk_step_def split: option.splits sum.splits prod.splits
           dest: merge_chunk_keys)

lemma batch_ids_shape:
  "batch_ids fuel E halt cmd ids chunk count acc c = Some (Inr r, c') \<Longrightarrow>
     \<exists>acc'. r = wrap_accum acc' \<and> map fst acc' = map fst acc"
proof (induction ids arbitrary: chunk count acc c)
  case Nil
  then show ?case by auto
next
  case (Cons request_id ids)
  from Cons.prems obtain v where v: "map_of cmd request_id = Some v"
    by (auto split: option.splits)
  let ?chunk = "AList.update request_id v chunk"
  show ?case
  proof (cases "length ?chunk = 49 \<or> count + 1 = length cmd")
    case True
    then obtain acc1 c1 where step: "chunk_step fuel E halt ?chunk acc c = Some (Inr acc1, c1)"
      and rest: "batch_ids fuel E halt cmd ids [] (count + 1) acc1 c1 = Some (Inr r, c')"
      using Cons.prems v by (auto simp: Let_def split: option.splits sum.splits prod.splits)
    from Cons.IH [OF rest] chunk_step_keys [OF step] show ?thesis by auto
  next
    case False
    then have "batch_ids fuel E halt cmd ids ?chunk (count + 1) acc c = Some (Inr r, c')"
      using Cons.prems v by (auto simp: Let_def)
    from Cons.IH [OF this] show ?thesis .
  qed
qed

lemma four_keys:
  assumes "map fst acc = map fst empty_accum"
  shows "\<exists>e t r n. acc = [(''result_error'', e), (''result_total'', t), (''result'', r),
                          (''result_next'', n)]"
proof -
  from assms have "length (map fst acc) = 4" by (simp add: empty_accum_def)
  then have "length acc = 4" by simp
  then obtain a b c d where "acc = [a, b, c, d]"
    by (auto simp: length_Suc_conv numeral_eq_Suc)
  with assms show ?thesis
    by (cases a; cases b; cases c; cases d) (auto simp: empty_accum_def)
qed

text \<open>
  C2, as the code has it. The loop of lines 191 to 193 runs over every key of the
  chunk response's \<^verbatim>\<open>result\<close>, so it treats \<^verbatim>\<open>result_error\<close>, \<^verbatim>\<open>result_total\<close>
  and \<^verbatim>\<open>result_next\<close> as it treats \<^verbatim>\<open>result\<close>: for each name, a non-empty sub-map
  of the chunk response is merged into the accumulator's sub-map of that name, and
  the accumulator's sub-map stays as it is when the chunk response has no sub-map of
  that name or an empty one. The keys of the accumulator never change, so the
  mapping that \<^verbatim>\<open>batch\<close> returns for a parameter map with \<^verbatim>\<open>halt\<close> and \<^verbatim>\<open>cmd\<close> has
  exactly the four sub-maps, each a mapping.
\<close>

theorem batch_merges_every_submap:
  "(merge_chunk temp acc = Inr acc' \<and> py_getitem temp (PStr ''result'') = Inr (PDict t)
      \<and> distinct (map fst t) \<longrightarrow>
      map fst acc' = map fst acc
    \<and> map_of acc' name =
        (case map_of t name of
           Some (PDict x) \<Rightarrow>
             if x = [] then map_of acc name else map_option (dict_update x) (map_of acc name)
         | _ \<Rightarrow> map_of acc name))
   \<and> (batch fuel E c params = Some (Inr r, c')
        \<and> ''halt'' \<in> set (map fst params) \<and> ''cmd'' \<in> set (map fst params) \<longrightarrow>
       (\<exists>e t' rr n.
          r = PDict [(''result'',
                PDict [(''result_error'', PDict e), (''result_total'', PDict t'),
                       (''result'', PDict rr), (''result_next'', PDict n)])]))"
proof (intro conjI impI)
  assume a: "merge_chunk temp acc = Inr acc' \<and> py_getitem temp (PStr ''result'') = Inr (PDict t)
      \<and> distinct (map fst t)"
  then show "map fst acc' = map fst acc" by (blast dest: merge_chunk_keys)
  from a show "map_of acc' name =
        (case map_of t name of
           Some (PDict x) \<Rightarrow>
             if x = [] then map_of acc name else map_option (dict_update x) (map_of acc name)
         | _ \<Rightarrow> map_of acc name)"
    using merge_chunk_lookup [of temp acc acc' t name] by blast
next
  assume a: "batch fuel E c params = Some (Inr r, c')
        \<and> ''halt'' \<in> set (map fst params) \<and> ''cmd'' \<in> set (map fst params)"
  then obtain halt cmd where
    "batch_ids fuel E halt cmd (sort (map fst cmd)) [] 0 empty_accum c = Some (Inr r, c')"
    by (auto simp: batch_def split: option.splits pyval.splits if_splits)
  from batch_ids_shape [OF this] obtain acc1 where
    acc1: "r = wrap_accum acc1" "map fst acc1 = map fst empty_accum" by blast
  from four_keys [OF acc1(2)] acc1(1)
  show "\<exists>e t' rr n.
          r = PDict [(''result'',
                PDict [(''result_error'', PDict e), (''result_total'', PDict t'),
                       (''result'', PDict rr), (''result_next'', PDict n)])]"
    by (auto simp: wrap_accum_def)
qed

theorem batch_merges_every_submap_witness:
  "merge_chunk (PDict [(''result'', PDict [(''result'', PList []),
                                           (''result_next'', PDict [(''a'', PInt 50)])])])
     empty_accum
   = Inr [(''result_error'', []), (''result_total'', []), (''result'', []),
          (''result_next'', [(''a'', PInt 50)])]
   \<and> map_of [(''result_error'', []), (''result_total'', []), (''result'', []),
          (''result_next'', [(''a'', PInt 50)])] ''result_next''
       = map_option (dict_update [(''a'', PInt 50)]) (map_of empty_accum ''result_next'')
   \<and> batch 0 (sample_env [Response ''{result: {result: [], result_next: {a: 50}}}''])
        sample_client [(''halt'', PInt 0), (''cmd'', PDict [(''a'', PList [PStr ''user.get''])])]
       = Some (Inr (PDict [(''result'',
                  PDict [(''result_error'', PDict []), (''result_total'', PDict []),
                         (''result'', PDict []),
                         (''result_next'', PDict [(''a'', PInt 50)])])]),
               sample_client\<lparr>sent := [api_request sample_client ''batch''
                                           ''cmd[a]=user.get?&&halt=0&auth=A1&'']\<rparr>)"
proof -
  let ?t = "[(''result'', PList []), (''result_next'', PDict [(''a'', PInt 50)])]"
  let ?acc' = "[(''result_error'', []), (''result_total'', []), (''result'', []),
          (''result_next'', [(''a'', PInt 50)])]"
  let ?E = "sample_env [Response ''{result: {result: [], result_next: {a: 50}}}'']"
  let ?params = "[(''halt'', PInt 0), (''cmd'', PDict [(''a'', PList [PStr ''user.get''])])]"
  let ?c' = "sample_client\<lparr>sent := [api_request sample_client ''batch''
                                       ''cmd[a]=user.get?&&halt=0&auth=A1&'']\<rparr>"
  have step: "merge_chunk (PDict [(''result'', PDict ?t)]) empty_accum = Inr ?acc'
      \<and> py_getitem (PDict [(''result'', PDict ?t)]) (PStr ''result'') = Inr (PDict ?t)
      \<and> distinct (map fst ?t)"
    by (simp add: merge_chunk_def dict_update_def empty_accum_def)
  have "batch 0 ?E sample_client ?params = Some (Inr (wrap_accum ?acc'), ?c')"
    by code_simp
  then have run: "batch 0 ?E sample_client ?params = Some (Inr (wrap_accum ?acc'), ?c')
             \<and> ''halt'' \<in> set (map fst ?params) \<and> ''cmd'' \<in> set (map fst ?params)"
    by simp
  show ?thesis
    using batch_merges_every_submap [of "PDict [(''result'', PDict ?t)]" empty_accum ?acc' ?t
            "''result_next''" 0 ?E sample_client ?params "wrap_accum ?acc'" ?c']
          step run
    by (simp add: wrap_accum_def)
qed

text \<open>
  The claim as written has the three sub-maps empty in every returned mapping. One
  request-id, and a response whose \<^verbatim>\<open>result_total\<close> is not empty: the returned
  mapping carries it.
\<close>

theorem batch_propagates_total_counterexample:
  "batch 0 (sample_env [Response ''{result: {result: {a: 1}, result_total: {a: 5}}}''])
     sample_client [(''halt'', PInt 0), (''cmd'', PDict [(''a'', PList [PStr ''user.get''])])]
   = Some (Inr (PDict [(''result'',
                  PDict [(''result_error'', PDict []),
                         (''result_total'', PDict [(''a'', PInt 5)]),
                         (''result'', PDict [(''a'', PInt 1)]),
                         (''result_next'', PDict [])])]),
           sample_client\<lparr>sent := [api_request sample_client ''batch''
                                       ''cmd[a]=user.get?&&halt=0&auth=A1&'']\<rparr>)"
  by code_simp

section \<open>The chunks of a batch of 120 (C5)\<close>

lemma chunk_of_Nil [simp]: "chunk_of cmd [] = []"
  by (simp add: chunk_of_def)

lemma chunk_of_Cons:
  "map_of cmd k = Some v \<Longrightarrow> chunk_of cmd (k # ids) = (k, v) # chunk_of cmd ids"
  by (simp add: chunk_of_def)

lemma chunk_of_append: "chunk_of cmd (xs @ ys) = chunk_of cmd xs @ chunk_of cmd ys"
  by (simp add: chunk_of_def map_filter_def)

lemma map_fst_chunk_of:
  "set ids \<subseteq> fst ` set cmd \<Longrightarrow> map fst (chunk_of cmd ids) = ids"
proof (induction ids)
  case Nil
  then show ?case by simp
next
  case (Cons k ids)
  then obtain v where "map_of cmd k = Some v"
    by (metis list.set_intros(1) map_of_eq_None_iff not_Some_eq subsetD)
  with Cons show ?case by (simp add: chunk_of_Cons)
qed

lemma in_chunk_of:
  "(k, v) \<in> set (chunk_of cmd ids) \<longleftrightarrow> k \<in> set ids \<and> map_of cmd k = Some v"
  unfolding chunk_of_def by (induction ids) (auto split: option.splits)

lemma set_chunk_of:
  assumes "distinct (map fst cmd)" and "set ids = fst ` set cmd"
  shows "set (chunk_of cmd ids) = set cmd"
proof (rule set_eqI)
  fix kv :: "string \<times> pyval"
  obtain k v where kv: "kv = (k, v)" by (cases kv)
  have "(k, v) \<in> set cmd \<longleftrightarrow> k \<in> set ids \<and> map_of cmd k = Some v"
    using assms by (auto dest: map_of_SomeD intro: rev_image_eqI)
  then show "kv \<in> set (chunk_of cmd ids) \<longleftrightarrow> kv \<in> set cmd"
    unfolding kv by (simp add: in_chunk_of)
qed

lemma batch_ids_fill:
  assumes "set pre \<subseteq> fst ` set cmd" and "distinct pre"
      and "set pre \<inter> fst ` set chunk = {}"
      and "length chunk + length pre < 49" and "count + length pre < length cmd"
  shows "batch_ids fuel E halt cmd (pre @ rest) chunk count acc c
           = batch_ids fuel E halt cmd rest (chunk @ chunk_of cmd pre) (count + length pre) acc c"
  using assms
proof (induction pre arbitrary: chunk count)
  case Nil
  then show ?case by simp
next
  case (Cons k pre)
  from Cons.prems(1) obtain v where v: "map_of cmd k = Some v"
    by (metis list.set_intros(1) map_of_eq_None_iff not_Some_eq subsetD)
  have fresh: "k \<notin> fst ` set chunk" using Cons.prems(3) by auto
  have upd: "AList.update k v chunk = chunk @ [(k, v)]"
    using fresh by (rule update_fresh)
  have step: "batch_ids fuel E halt cmd ((k # pre) @ rest) chunk count acc c
                = batch_ids fuel E halt cmd (pre @ rest) (chunk @ [(k, v)]) (count + 1) acc c"
    using v upd Cons.prems(4,5) by (simp add: Let_def)
  have ih: "batch_ids fuel E halt cmd (pre @ rest) (chunk @ [(k, v)]) (count + 1) acc c
              = batch_ids fuel E halt cmd rest ((chunk @ [(k, v)]) @ chunk_of cmd pre)
                  ((count + 1) + length pre) acc c"
    using Cons.prems by (intro Cons.IH) auto
  show ?case using step ih v by (simp add: chunk_of_Cons)
qed

lemma batch_ids_chunk:
  assumes keys: "set ch \<subseteq> fst ` set cmd" and dist: "distinct ch" and ne: "ch \<noteq> []"
      and len: "length ch \<le> 49" and room: "count + length ch \<le> length cmd"
      and full: "length ch = 49 \<or> count + length ch = length cmd"
  shows "batch_ids fuel E halt cmd (ch @ rest) [] count acc c
           = (case chunk_step fuel E halt (chunk_of cmd ch) acc c of
                None \<Rightarrow> None
              | Some (Inl e, c') \<Rightarrow> Some (Inl e, c')
              | Some (Inr acc', c') \<Rightarrow>
                  batch_ids fuel E halt cmd rest [] (count + length ch) acc' c')"
proof -
  obtain pre k where ch: "ch = pre @ [k]"
    using ne by (metis append_butlast_last_id)
  have pre_keys: "set pre \<subseteq> fst ` set cmd" and k_key: "k \<in> fst ` set cmd"
    using keys ch by auto
  have pre_dist: "distinct pre" and k_fresh: "k \<notin> set pre" using dist ch by auto
  obtain v where v: "map_of cmd k = Some v"
    using k_key by (metis map_of_eq_None_iff not_Some_eq)
  have fill: "batch_ids fuel E halt cmd (pre @ k # rest) [] count acc c
                = batch_ids fuel E halt cmd (k # rest) ([] @ chunk_of cmd pre)
                    (count + length pre) acc c"
    using pre_keys pre_dist len room ch by (intro batch_ids_fill) auto
  have keys_pre: "map fst (chunk_of cmd pre) = pre"
    using pre_keys by (rule map_fst_chunk_of)
  then have "k \<notin> fst ` set (chunk_of cmd pre)"
    using k_fresh by (metis list.set_map)
  then have upd: "AList.update k v (chunk_of cmd pre) = chunk_of cmd pre @ [(k, v)]"
    by (rule update_fresh)
  have whole: "chunk_of cmd pre @ [(k, v)] = chunk_of cmd ch"
    using v ch by (simp add: chunk_of_append chunk_of_Cons)
  have size: "length (chunk_of cmd ch) = length ch"
    using map_fst_chunk_of [OF keys] by (metis length_map)
  have fire: "batch_ids fuel E halt cmd (k # rest) (chunk_of cmd pre) (count + length pre) acc c
                = (case chunk_step fuel E halt (chunk_of cmd ch) acc c of
                     None \<Rightarrow> None
                   | Some (Inl e, c') \<Rightarrow> Some (Inl e, c')
                   | Some (Inr acc', c') \<Rightarrow>
                       batch_ids fuel E halt cmd rest [] (count + length ch) acc' c')"
    using v upd whole size full ch
    by (simp add: Let_def cong: option.case_cong prod.case_cong sum.case_cong)
  show ?thesis using fill fire ch by simp
qed

text \<open>
  The loop against the specification's reading of it: for 120 request-ids the loop is
  the run over three chunks of 49, 49 and 22 entries.
\<close>

lemma batch_120_run_chunks:
  assumes halt: "map_of params ''halt'' = Some halt"
      and cmd: "map_of params ''cmd'' = Some (PDict cmd)"
      and dist: "distinct (map fst cmd)" and size: "length cmd = 120"
  shows "let ids = sort (map fst cmd);
             chunks = [chunk_of cmd (take 49 ids), chunk_of cmd (take 49 (drop 49 ids)),
                       chunk_of cmd (drop 98 ids)]
         in batch fuel E c params = run_chunks fuel E halt chunks empty_accum c
          \<and> map length chunks = [49, 49, 22]
          \<and> map fst (concat chunks) = ids
          \<and> set (concat chunks) = set cmd"
proof -
  define ids where "ids = sort (map fst cmd)"
  define a where "a = take 49 ids"
  define b where "b = take 49 (drop 49 ids)"
  define d where "d = drop 98 ids"
  have len: "length ids = 120" and dids: "distinct ids" and sids: "set ids = fst ` set cmd"
    using dist size by (simp_all add: ids_def)
  have "drop 49 ids = take 49 (drop 49 ids) @ drop 49 (drop 49 ids)"
    by (rule append_take_drop_id [symmetric])
  also have "drop 49 (drop 49 ids) = drop 98 ids" by simp
  finally have "drop 49 ids = b @ d"
    unfolding b_def d_def .
  then have split: "ids = a @ b @ d"
    unfolding a_def by (metis append_take_drop_id)
  have la: "length a = 49" and lb: "length b = 49" and ld: "length d = 22"
    using len by (simp_all add: a_def b_def d_def)
  have keys: "set a \<subseteq> fst ` set cmd" "set b \<subseteq> fst ` set cmd" "set d \<subseteq> fst ` set cmd"
    using sids split by auto
  have dists: "distinct a" "distinct b" "distinct d"
    using dids split by auto
  have ne: "a \<noteq> []" "b \<noteq> []" "d \<noteq> []"
    using la lb ld by auto
  have s1: "batch_ids fuel E halt cmd (a @ b @ d) [] 0 acc0 c0
           = (case chunk_step fuel E halt (chunk_of cmd a) acc0 c0 of
                None \<Rightarrow> None
              | Some (Inl e, c') \<Rightarrow> Some (Inl e, c')
              | Some (Inr acc', c') \<Rightarrow>
                  batch_ids fuel E halt cmd (b @ d) [] (0 + length a) acc' c')" for acc0 c0
    using keys(1) dists(1) ne(1) la size by (intro batch_ids_chunk) simp_all
  have s2: "batch_ids fuel E halt cmd (b @ d) [] 49 acc0 c0
           = (case chunk_step fuel E halt (chunk_of cmd b) acc0 c0 of
                None \<Rightarrow> None
              | Some (Inl e, c') \<Rightarrow> Some (Inl e, c')
              | Some (Inr acc', c') \<Rightarrow>
                  batch_ids fuel E halt cmd d [] (49 + length b) acc' c')" for acc0 c0
    using keys(2) dists(2) ne(2) lb size by (intro batch_ids_chunk) simp_all
  have s3: "batch_ids fuel E halt cmd (d @ []) [] 98 acc0 c0
           = (case chunk_step fuel E halt (chunk_of cmd d) acc0 c0 of
                None \<Rightarrow> None
              | Some (Inl e, c') \<Rightarrow> Some (Inl e, c')
              | Some (Inr acc', c') \<Rightarrow>
                  batch_ids fuel E halt cmd [] [] (98 + length d) acc' c')" for acc0 c0
    using keys(3) dists(3) ne(3) ld size by (intro batch_ids_chunk) simp_all
  have start: "batch fuel E c params = batch_ids fuel E halt cmd ids [] 0 empty_accum c"
    using halt cmd by (auto simp: batch_def ids_def dest: map_of_SomeD intro: rev_image_eqI)
  have run: "batch fuel E c params
               = run_chunks fuel E halt [chunk_of cmd a, chunk_of cmd b, chunk_of cmd d]
                   empty_accum c"
    using s3 unfolding start split
    by (simp add: s1 s2 la lb ld cong: option.case_cong prod.case_cong sum.case_cong)
  have "length (chunk_of cmd a) = length a" "length (chunk_of cmd b) = length b"
       "length (chunk_of cmd d) = length d"
    using map_fst_chunk_of [OF keys(1)] map_fst_chunk_of [OF keys(2)]
          map_fst_chunk_of [OF keys(3)]
    by (metis length_map)+
  then have lens: "map length [chunk_of cmd a, chunk_of cmd b, chunk_of cmd d] = [49, 49, 22]"
    using la lb ld by simp
  have whole: "concat [chunk_of cmd a, chunk_of cmd b, chunk_of cmd d] = chunk_of cmd ids"
    by (simp add: split chunk_of_append)
  have order: "map fst (chunk_of cmd ids) = ids"
    using sids by (intro map_fst_chunk_of) simp
  have same: "set (chunk_of cmd ids) = set cmd"
    using dist sids by (rule set_chunk_of)
  show ?thesis
    using run lens whole order same
    unfolding Let_def ids_def [symmetric] a_def [symmetric] b_def [symmetric] d_def [symmetric]
    by simp
qed

text \<open>
  A \<^verbatim>\<open>call\<close> with a method name that returns a result has handed at least one
  request to the transport.
\<close>

lemma api_post_grows:
  "api_post E c m body = (result, c1) \<Longrightarrow> length (sent c1) = Suc (length (sent c))"
  using api_post_sent [of E c m body result c1] by simp

lemma refresh_tokens_grows:
  "refresh_tokens E c = (x, c') \<Longrightarrow> length (sent c') = Suc (length (sent c))"
  using refresh_tokens_sent [of E c x c'] by simp

lemma attempt_return_sends:
  assumes "attempt E c (PStr m) p1 p2 p3 p4 = Return (Inr r, c')"
  shows "length (sent c) < length (sent c')"
  using assms
  by (auto simp: attempt_def split: if_splits sum.splits prod.splits
           dest!: api_post_grows refresh_tokens_grows)

lemma attempt_reissue_sends:
  assumes "attempt E c (PStr m) p1 p2 p3 p4 = Reissue c' q1"
  shows "length (sent c) < length (sent c')"
  using assms
  by (auto simp: attempt_def split: if_splits sum.splits prod.splits
           dest!: api_post_grows refresh_tokens_grows)

lemma call_sends:
  "call fuel E c (PStr m) p1 p2 p3 p4 = Some (Inr r, c') \<Longrightarrow>
     length (sent c) < length (sent c')"
proof (induction fuel arbitrary: c p1)
  case 0
  then show ?case
    by (auto split: verdict.splits dest: attempt_return_sends)
next
  case (Suc fuel)
  show ?case
  proof (cases "attempt E c (PStr m) p1 p2 p3 p4")
    case (Return x)
    with Suc.prems show ?thesis by (auto dest: attempt_return_sends)
  next
    case (Reissue c1 q1)
    with Suc.prems have "call fuel E c1 (PStr m) q1 p2 p3 p4 = Some (Inr r, c')" by simp
    from Suc.IH [OF this] attempt_reissue_sends [OF Reissue] show ?thesis by simp
  qed
qed

text \<open>
  C5, as the code has it. For every parameter map with \<^verbatim>\<open>halt\<close> and a command map
  of exactly 120 request-ids, the chunks of \<^verbatim>\<open>batch\<close> have 49, 49 and 22 entries;
  put one after the other they hold the request-ids in sorted order, and they hold
  the entries of the command map and no others. \<^verbatim>\<open>batch\<close> invokes
  \<^verbatim>\<open>call('batch', {'halt': ..., 'cmd': chunk})\<close> on the first chunk, merges the
  result, then does the same for the second and for the third chunk, each call on
  the client as the call before left it; a fault of a call or of a merge, or a call
  that does not return, ends the run there, and the later chunks are not sent. A run
  that returns normally has made exactly these three invocations, each of which
  returned a result, its result is the accumulator after the third merge, and the
  transport has received at least three requests.
\<close>

theorem batch_120_calls:
  assumes halt: "map_of params ''halt'' = Some halt"
      and cmd: "map_of params ''cmd'' = Some (PDict cmd)"
      and dist: "distinct (map fst cmd)" and size: "length cmd = 120"
  shows "let ids = sort (map fst cmd);
             ch1 = chunk_of cmd (take 49 ids);
             ch2 = chunk_of cmd (take 49 (drop 49 ids));
             ch3 = chunk_of cmd (drop 98 ids);
             send = (\<lambda>k ch. call fuel E k (PStr ''batch'')
                                (Some [(''halt'', halt), (''cmd'', PDict ch)]) None None None)
         in map length [ch1, ch2, ch3] = [49, 49, 22]
          \<and> map fst (ch1 @ ch2 @ ch3) = ids
          \<and> set (ch1 @ ch2 @ ch3) = set cmd
          \<and> batch fuel E c params =
              (case send c ch1 of
                 None \<Rightarrow> None
               | Some (Inl e, k1) \<Rightarrow> Some (Inl e, k1)
               | Some (Inr t1, k1) \<Rightarrow>
                   (case merge_chunk t1 empty_accum of
                      Inl e \<Rightarrow> Some (Inl e, k1)
                    | Inr a1 \<Rightarrow>
                        (case send k1 ch2 of
                           None \<Rightarrow> None
                         | Some (Inl e, k2) \<Rightarrow> Some (Inl e, k2)
                         | Some (Inr t2, k2) \<Rightarrow>
                             (case merge_chunk t2 a1 of
                                Inl e \<Rightarrow> Some (Inl e, k2)
                              | Inr a2 \<Rightarrow>
                                  (case send k2 ch3 of
                                     None \<Rightarrow> None
                                   | Some (Inl e, k3) \<Rightarrow> Some (Inl e, k3)
                                   | Some (Inr t3, k3) \<Rightarrow>
                                       (case merge_chunk t3 a2 of
                                          Inl e \<Rightarrow> Some (Inl e, k3)
                                        | Inr a3 \<Rightarrow> Some (Inr (wrap_accum a3), k3)))))))
          \<and> (batch fuel E c params = Some (Inr r, c') \<longrightarrow>
               (\<exists>t1 k1 a1 t2 k2 a2 t3 a3.
                  send c ch1 = Some (Inr t1, k1) \<and> merge_chunk t1 empty_accum = Inr a1
                \<and> send k1 ch2 = Some (Inr t2, k2) \<and> merge_chunk t2 a1 = Inr a2
                \<and> send k2 ch3 = Some (Inr t3, c') \<and> merge_chunk t3 a2 = Inr a3
                \<and> r = wrap_accum a3
                \<and> length (sent c) + 3 \<le> length (sent c')))"
proof -
  define ids where "ids = sort (map fst cmd)"
  define ch1 where "ch1 = chunk_of cmd (take 49 ids)"
  define ch2 where "ch2 = chunk_of cmd (take 49 (drop 49 ids))"
  define ch3 where "ch3 = chunk_of cmd (drop 98 ids)"
  define send where "send = (\<lambda>k ch. call fuel E k (PStr ''batch'')
                                (Some [(''halt'', halt), (''cmd'', PDict ch)]) None None None)"
  have chunks: "batch fuel E c params = run_chunks fuel E halt [ch1, ch2, ch3] empty_accum c
      \<and> map length [ch1, ch2, ch3] = [49, 49, 22]
      \<and> map fst (concat [ch1, ch2, ch3]) = ids
      \<and> set (concat [ch1, ch2, ch3]) = set cmd"
    using batch_120_run_chunks [OF halt cmd dist size, of fuel E c]
    unfolding Let_def ids_def ch1_def ch2_def ch3_def by simp
  have step: "chunk_step fuel E halt ch acc k =
                (case send k ch of
                   None \<Rightarrow> None
                 | Some (Inl e, k') \<Rightarrow> Some (Inl e, k')
                 | Some (Inr temp, k') \<Rightarrow>
                     (case merge_chunk temp acc of
                        Inl e \<Rightarrow> Some (Inl e, k')
                      | Inr acc' \<Rightarrow> Some (Inr acc', k')))" for ch acc k
    by (simp add: chunk_step_def send_def)
  have run: "batch fuel E c params =
              (case send c ch1 of
                 None \<Rightarrow> None
               | Some (Inl e, k1) \<Rightarrow> Some (Inl e, k1)
               | Some (Inr t1, k1) \<Rightarrow>
                   (case merge_chunk t1 empty_accum of
                      Inl e \<Rightarrow> Some (Inl e, k1)
                    | Inr a1 \<Rightarrow>
                        (case send k1 ch2 of
                           None \<Rightarrow> None
                         | Some (Inl e, k2) \<Rightarrow> Some (Inl e, k2)
                         | Some (Inr t2, k2) \<Rightarrow>
                             (case merge_chunk t2 a1 of
                                Inl e \<Rightarrow> Some (Inl e, k2)
                              | Inr a2 \<Rightarrow>
                                  (case send k2 ch3 of
                                     None \<Rightarrow> None
                                   | Some (Inl e, k3) \<Rightarrow> Some (Inl e, k3)
                                   | Some (Inr t3, k3) \<Rightarrow>
                                       (case merge_chunk t3 a2 of
                                          Inl e \<Rightarrow> Some (Inl e, k3)
                                        | Inr a3 \<Rightarrow> Some (Inr (wrap_accum a3), k3)))))))"
    using chunks by (simp add: step split: option.splits sum.splits prod.splits)
  have normal: "\<exists>t1 k1 a1 t2 k2 a2 t3 a3.
                  send c ch1 = Some (Inr t1, k1) \<and> merge_chunk t1 empty_accum = Inr a1
                \<and> send k1 ch2 = Some (Inr t2, k2) \<and> merge_chunk t2 a1 = Inr a2
                \<and> send k2 ch3 = Some (Inr t3, c') \<and> merge_chunk t3 a2 = Inr a3
                \<and> r = wrap_accum a3
                \<and> length (sent c) + 3 \<le> length (sent c')"
    if ret: "batch fuel E c params = Some (Inr r, c')"
  proof -
    from ret run obtain t1 k1 a1 t2 k2 a2 t3 a3 where calls:
      "send c ch1 = Some (Inr t1, k1)" "merge_chunk t1 empty_accum = Inr a1"
      "send k1 ch2 = Some (Inr t2, k2)" "merge_chunk t2 a1 = Inr a2"
      "send k2 ch3 = Some (Inr t3, c')" "merge_chunk t3 a2 = Inr a3" "r = wrap_accum a3"
      by (auto split: option.splits sum.splits prod.splits)
    have "length (sent c) < length (sent k1)" "length (sent k1) < length (sent k2)"
         "length (sent k2) < length (sent c')"
      using calls(1,3,5) unfolding send_def by (auto dest: call_sends)
    then have "length (sent c) + 3 \<le> length (sent c')" by simp
    with calls show ?thesis by blast
  qed
  show ?thesis
    unfolding Let_def ids_def [symmetric] ch1_def [symmetric] ch2_def [symmetric]
      ch3_def [symmetric] send_def [symmetric]
    using chunks run normal by simp
qed

theorem batch_120_calls_witness:
  "length (sample_cmd 100 220) = 120
   \<and> distinct (map fst (sample_cmd 100 220))
   \<and> map_option fst
         (batch 0 (sample_env [Response ''{result: {result: {100: u100}}}'',
                               Response ''{result: {result: {149: u149}}}'',
                               Response ''{result: {result: {198: u198}}}''])
            sample_client [(''halt'', PInt 0), (''cmd'', PDict (sample_cmd 100 220))])
       = Some (Inr (PDict [(''result'',
                  PDict [(''result_error'', PDict []), (''result_total'', PDict []),
                         (''result'', PDict [(''198'', PStr ''u198''), (''149'', PStr ''u149''),
                                             (''100'', PStr ''u100'')]),
                         (''result_next'', PDict [])])]))
   \<and> map_option (length \<circ> sent \<circ> snd)
         (batch 0 (sample_env [Response ''{result: {result: {100: u100}}}'',
                               Response ''{result: {result: {149: u149}}}'',
                               Response ''{result: {result: {198: u198}}}''])
            sample_client [(''halt'', PInt 0), (''cmd'', PDict (sample_cmd 100 220))])
       = Some 3
   \<and> (\<exists>t1 k1 a1 t2 k2 a2 t3 k3 a3.
        call 0 (sample_env [Response ''{result: {result: {100: u100}}}'',
                            Response ''{result: {result: {149: u149}}}'',
                            Response ''{result: {result: {198: u198}}}''])
          sample_client (PStr ''batch'')
          (Some [(''halt'', PInt 0), (''cmd'', PDict (sample_cmd 100 149))]) None None None
          = Some (Inr t1, k1)
      \<and> merge_chunk t1 empty_accum = Inr a1
      \<and> call 0 (sample_env [Response ''{result: {result: {100: u100}}}'',
                            Response ''{result: {result: {149: u149}}}'',
                            Response ''{result: {result: {198: u198}}}''])
          k1 (PStr ''batch'')
          (Some [(''halt'', PInt 0), (''cmd'', PDict (sample_cmd 149 198))]) None None None
          = Some (Inr t2, k2)
      \<and> merge_chunk t2 a1 = Inr a2
      \<and> call 0 (sample_env [Response ''{result: {result: {100: u100}}}'',
                            Response ''{result: {result: {149: u149}}}'',
                            Response ''{result: {result: {198: u198}}}''])
          k2 (PStr ''batch'')
          (Some [(''halt'', PInt 0), (''cmd'', PDict (sample_cmd 198 220))]) None None None
          = Some (Inr t3, k3)
      \<and> merge_chunk t3 a2 = Inr a3
      \<and> length (sent sample_client) + 3 \<le> length (sent k3))"
proof -
  let ?cmd = "sample_cmd 100 220"
  let ?params = "[(''halt'', PInt 0), (''cmd'', PDict ?cmd)]"
  let ?E = "sample_env [Response ''{result: {result: {100: u100}}}'',
                        Response ''{result: {result: {149: u149}}}'',
                        Response ''{result: {result: {198: u198}}}'']"
  let ?r = "PDict [(''result'',
                  PDict [(''result_error'', PDict []), (''result_total'', PDict []),
                         (''result'', PDict [(''198'', PStr ''u198''), (''149'', PStr ''u149''),
                                             (''100'', PStr ''u100'')]),
                         (''result_next'', PDict [])])]"
  have h: "map_of ?params ''halt'' = Some (PInt 0)" by simp
  have c: "map_of ?params ''cmd'' = Some (PDict ?cmd)" by simp
  have d: "distinct (map fst ?cmd)" by code_simp
  have l: "length ?cmd = 120" by (simp add: sample_cmd_def)
  have c1: "chunk_of ?cmd (take 49 (sort (map fst ?cmd))) = sample_cmd 100 149"
    by code_simp
  have c2: "chunk_of ?cmd (take 49 (drop 49 (sort (map fst ?cmd)))) = sample_cmd 149 198"
    by code_simp
  have c3: "chunk_of ?cmd (drop 98 (sort (map fst ?cmd))) = sample_cmd 198 220"
    by code_simp
  have run: "map_option (\<lambda>rc. (fst rc, length (sent (snd rc))))
               (batch 0 ?E sample_client ?params) = Some (Inr ?r, 3)"
    by code_simp
  then obtain c' where ret: "batch 0 ?E sample_client ?params = Some (Inr ?r, c')"
    and three: "length (sent c') = 3"
    by (cases "batch 0 ?E sample_client ?params") auto
  from batch_120_calls [OF h c d l, of 0 ?E sample_client ?r c'] ret
  have "\<exists>t1 k1 a1 t2 k2 a2 t3 a3.
        call 0 ?E sample_client (PStr ''batch'')
          (Some [(''halt'', PInt 0), (''cmd'', PDict (sample_cmd 100 149))]) None None None
          = Some (Inr t1, k1)
      \<and> merge_chunk t1 empty_accum = Inr a1
      \<and> call 0 ?E k1 (PStr ''batch'')
          (Some [(''halt'', PInt 0), (''cmd'', PDict (sample_cmd 149 198))]) None None None
          = Some (Inr t2, k2)
      \<and> merge_chunk t2 a1 = Inr a2
      \<and> call 0 ?E k2 (PStr ''batch'')
          (Some [(''halt'', PInt 0), (''cmd'', PDict (sample_cmd 198 220))]) None None None
          = Some (Inr t3, c')
      \<and> merge_chunk t3 a2 = Inr a3
      \<and> ?r = wrap_accum a3
      \<and> length (sent sample_client) + 3 \<le> length (sent c')"
    unfolding Let_def c1 c2 c3 by blast
  then have calls: "\<exists>t1 k1 a1 t2 k2 a2 t3 k3 a3.
        call 0 ?E sample_client (PStr ''batch'')
          (Some [(''halt'', PInt 0), (''cmd'', PDict (sample_cmd 100 149))]) None None None
          = Some (Inr t1, k1)
      \<and> merge_chunk t1 empty_accum = Inr a1
      \<and> call 0 ?E k1 (PStr ''batch'')
          (Some [(''halt'', PInt 0), (''cmd'', PDict (sample_cmd 149 198))]) None None None
          = Some (Inr t2, k2)
      \<and> merge_chunk t2 a1 = Inr a2
      \<and> call 0 ?E k2 (PStr ''batch'')
          (Some [(''halt'', PInt 0), (''cmd'', PDict (sample_cmd 198 220))]) None None None
          = Some (Inr t3, k3)
      \<and> merge_chunk t3 a2 = Inr a3
      \<and> length (sent sample_client) + 3 \<le> length (sent k3)"
    by blast
  show ?thesis
    using d l ret three calls by simp
qed

text \<open>
  The claim as written has three invocations for every command map of 120
  request-ids. Here the remote side cannot be reached: the first
  \<^verbatim>\<open>call\<close> returns the error result of the exhausted retries, which has no
  \<^verbatim>\<open>result\<close> key, so \<^verbatim>\<open>temp['result']\<close> raises KeyError and \<^verbatim>\<open>batch\<close> ends
  after one invocation and one request.
\<close>

theorem batch_120_fault_counterexample:
  "length (sample_cmd 100 220) = 120
   \<and> map_option fst
         (batch 0 (sample_env []) sample_client
            [(''halt'', PInt 0), (''cmd'', PDict (sample_cmd 100 220))])
       = Some (Inl KeyError)
   \<and> map_option (length \<circ> sent \<circ> snd)
         (batch 0 (sample_env []) sample_client
            [(''halt'', PInt 0), (''cmd'', PDict (sample_cmd 100 220))])
       = Some 1"
proof -
  have "map_option (\<lambda>rc. (fst rc, length (sent (snd rc))))
          (batch 0 (sample_env []) sample_client
             [(''halt'', PInt 0), (''cmd'', PDict (sample_cmd 100 220))])
        = Some (Inl KeyError, 1)"
    by code_simp
  then show ?thesis
    by (cases "batch 0 (sample_env []) sample_client
             [(''halt'', PInt 0), (''cmd'', PDict (sample_cmd 100 220))]")
       (auto simp: sample_cmd_def)
qed

end
